theory Spec2Isabelle
  imports Main "HOL-Library.Word"
begin

section \<open>The intermediate representation\<close>

text \<open>
  Expressions and statements of the pipeline IR, restricted to the node kinds that
  SlidingWindow.cpp builds or inspects, plus enough further kinds to exercise the
  default traversal of the visitors. Nodes are immutable values; the pointer test
  \<open>same_as\<close> of the source only avoids rebuilding an equal node, so it does not
  appear here, and \<open>equal\<close> (deep equality) is HOL equality.
\<close>

datatype expr =
    IntImm int
  | Variable string
  | Add expr expr
  | Sub expr expr
  | Mul expr expr
  | Min_expr expr expr
  | Max_expr expr expr
  | EQ expr expr
  | LE expr expr
  | GE expr expr
  | Select expr expr expr
  | Call string "expr list"
  | Let_expr string expr expr

datatype for_type = Serial | Parallel | Vectorized | Unrolled | Extern | GPUBlock | GPUThread | GPULane

datatype device_api = DeviceAPI_None | DeviceAPI_Host | DeviceAPI_Default_GPU

datatype stmt =
    Evaluate expr
  | Provide string "expr list" "expr list"
  | Block stmt stmt
  | IfThenElse expr stmt "stmt option"
  | LetStmt string expr stmt
  | For string expr expr for_type device_api stmt
  | ProducerConsumer string bool stmt
  | Realize string "(expr \<times> expr) list" expr stmt

text \<open>Modelled from the spec: a definition of a stage (\<open>Definition\<close> is declared outside
  the sources), with what the pass reads of it: its left-hand-side arguments and its
  specializations (condition and alternate definition).\<close>

datatype defn = Definition (def_args: "expr list") (specializations: "(expr \<times> defn) list")

text \<open>Modelled from the spec: a stage (\<open>Function\<close> is declared outside the sources) is a
  name, an ordered list of argument names, a primary definition and ordered update
  definitions. The pass reads \<open>name()\<close>, \<open>args()\<close>, \<open>updates()\<close> and \<open>dimensions()\<close>, the
  number of arguments; it never reads the primary definition.\<close>

record func =
  func_name :: string
  func_args :: "string list"
  func_definition :: defn
  func_updates :: "defn list"

definition dimensions :: "func \<Rightarrow> nat" where
  "dimensions f = length (func_args f)"

datatype monotonic = Constant | Increasing | Decreasing | Unknown

text \<open>Modelled from the spec: an interval is a pair of expressions, possibly one-sided
  (\<open>Interval\<close> is declared outside the sources); an unbounded side holds the distinguished
  expression \<open>pos_inf\<close> or \<open>neg_inf\<close>, and \<open>has_upper_bound\<close> tests for the former.\<close>

record interval =
  interval_min :: expr
  interval_max :: expr

definition pos_inf :: expr where
  "pos_inf = Variable ''pos_inf''"

definition neg_inf :: expr where
  "neg_inf = Variable ''neg_inf''"

definition has_upper_bound :: "interval \<Rightarrow> bool" where
  "has_upper_bound i = (interval_max i \<noteq> pos_inf)"

text \<open>Failures of the pass: a tripped \<open>internal_assert\<close>, an index past the end of a
  vector, and a null \<open>as<Variable>()\<close> that the source dereferences.\<close>

datatype error = Internal_assert | Out_of_range | Null_pointer

text \<open>The collaborators the pass consumes and does not implement (simplifier, prover,
  monotonicity oracle, interval solver, box query, fresh names and the tests on
  expressions) are parameters: every theorem below holds for any choice of them.
  \<open>unique_name\<close> takes the prefix and the running count of the names handed out.\<close>

record oracles =
  simplify :: "expr \<Rightarrow> expr"
  can_prove :: "expr \<Rightarrow> bool"
  is_monotonic :: "expr \<Rightarrow> string \<Rightarrow> monotonic"
  solve_for_inner_interval :: "expr \<Rightarrow> string \<Rightarrow> interval"
  lower_safe_promises :: "expr \<Rightarrow> expr"
  box_provided :: "stmt \<Rightarrow> string \<Rightarrow> interval list"
  is_pure :: "expr \<Rightarrow> bool"
  is_const_one :: "expr \<Rightarrow> bool"
  unique_name :: "char \<Rightarrow> nat \<Rightarrow> string"

definition likely_if_innermost :: "expr \<Rightarrow> expr" where
  "likely_if_innermost e = Call ''likely_if_innermost'' [e]"

text \<open>\<open>std::to_string\<close> on an unsigned count: decimal digits, no sign, no padding.\<close>

definition digit_char :: "nat \<Rightarrow> char" where
  "digit_char d = ''0123456789'' ! d"

fun to_string :: "nat \<Rightarrow> string" where
  "to_string n =
     (if n < 10 then [digit_char n]
      else to_string (n div 10) @ [digit_char (n mod 10)])"

declare to_string.simps [simp del]

section \<open>Dependence check and scoped expansion\<close>

text \<open>\<open>ExprDependsOnVar\<close>: a variable node with the name sets the result; a let always
  has its value visited and its body only when it does not rebind the name; every other
  node visits its children.\<close>

fun expr_depends_on_var :: "expr \<Rightarrow> string \<Rightarrow> bool" where
  "expr_depends_on_var (IntImm i) v = False"
| "expr_depends_on_var (Variable n) v = (n = v)"
| "expr_depends_on_var (Add a b) v = (expr_depends_on_var a v \<or> expr_depends_on_var b v)"
| "expr_depends_on_var (Sub a b) v = (expr_depends_on_var a v \<or> expr_depends_on_var b v)"
| "expr_depends_on_var (Mul a b) v = (expr_depends_on_var a v \<or> expr_depends_on_var b v)"
| "expr_depends_on_var (Min_expr a b) v = (expr_depends_on_var a v \<or> expr_depends_on_var b v)"
| "expr_depends_on_var (Max_expr a b) v = (expr_depends_on_var a v \<or> expr_depends_on_var b v)"
| "expr_depends_on_var (EQ a b) v = (expr_depends_on_var a v \<or> expr_depends_on_var b v)"
| "expr_depends_on_var (LE a b) v = (expr_depends_on_var a v \<or> expr_depends_on_var b v)"
| "expr_depends_on_var (GE a b) v = (expr_depends_on_var a v \<or> expr_depends_on_var b v)"
| "expr_depends_on_var (Select c a b) v =
     (expr_depends_on_var c v \<or> expr_depends_on_var a v \<or> expr_depends_on_var b v)"
| "expr_depends_on_var (Call f es) v = list_ex (\<lambda>e. expr_depends_on_var e v) es"
| "expr_depends_on_var (Let_expr n a b) v =
     (expr_depends_on_var a v \<or> (n \<noteq> v \<and> expr_depends_on_var b v))"

text \<open>A scope maps the names bound at the current position to their expressions. The
  source pushes a binding on entering a \<open>LetStmt\<close> body and pops it on leaving, so the
  scope is passed down by value.\<close>

type_synonym scope = "string \<rightharpoonup> expr"

text \<open>\<open>ExpandExpr\<close> overrides the variable case only: a name the scope contains is
  replaced by the scope's expression. Every other node, a let included, is rebuilt from
  its mutated children by the default mutator.\<close>

fun expand_expr :: "expr \<Rightarrow> scope \<Rightarrow> expr" where
  "expand_expr (IntImm i) sc = IntImm i"
| "expand_expr (Variable n) sc = (case sc n of Some e \<Rightarrow> e | None \<Rightarrow> Variable n)"
| "expand_expr (Add a b) sc = Add (expand_expr a sc) (expand_expr b sc)"
| "expand_expr (Sub a b) sc = Sub (expand_expr a sc) (expand_expr b sc)"
| "expand_expr (Mul a b) sc = Mul (expand_expr a sc) (expand_expr b sc)"
| "expand_expr (Min_expr a b) sc = Min_expr (expand_expr a sc) (expand_expr b sc)"
| "expand_expr (Max_expr a b) sc = Max_expr (expand_expr a sc) (expand_expr b sc)"
| "expand_expr (EQ a b) sc = EQ (expand_expr a sc) (expand_expr b sc)"
| "expand_expr (LE a b) sc = LE (expand_expr a sc) (expand_expr b sc)"
| "expand_expr (GE a b) sc = GE (expand_expr a sc) (expand_expr b sc)"
| "expand_expr (Select c a b) sc =
     Select (expand_expr c sc) (expand_expr a sc) (expand_expr b sc)"
| "expand_expr (Call f es) sc = Call f (map (\<lambda>e. expand_expr e sc) es)"
| "expand_expr (Let_expr n a b) sc = Let_expr n (expand_expr a sc) (expand_expr b sc)"

text \<open>\<open>FindProduce\<close>: is there a producer node of the stage anywhere in the statement?\<close>

fun find_produce :: "stmt \<Rightarrow> string \<Rightarrow> bool" where
  "find_produce (Evaluate e) f = False"
| "find_produce (Provide n vs as) f = False"
| "find_produce (Block a b) f = (find_produce a f \<or> find_produce b f)"
| "find_produce (IfThenElse c t e) f =
     (find_produce t f \<or> (case e of None \<Rightarrow> False | Some s \<Rightarrow> find_produce s f))"
| "find_produce (LetStmt n v b) f = find_produce b f"
| "find_produce (For n mn ex ft dev b) f = find_produce b f"
| "find_produce (ProducerConsumer n is_producer b) f =
     (if is_producer \<and> n = f then True else find_produce b f)"
| "find_produce (Realize n bs c b) f = find_produce b f"

section \<open>Substitution\<close>

text \<open>Modelled from the spec: the substitution engine (Substitute.h is not among the
  sources), variable-for-expression replacement in trees. A name rebound by a let or a
  loop is hidden in the body of that binding.\<close>

fun substitute :: "(string \<rightharpoonup> expr) \<Rightarrow> expr \<Rightarrow> expr" where
  "substitute m (IntImm i) = IntImm i"
| "substitute m (Variable n) = (case m n of Some e \<Rightarrow> e | None \<Rightarrow> Variable n)"
| "substitute m (Add a b) = Add (substitute m a) (substitute m b)"
| "substitute m (Sub a b) = Sub (substitute m a) (substitute m b)"
| "substitute m (Mul a b) = Mul (substitute m a) (substitute m b)"
| "substitute m (Min_expr a b) = Min_expr (substitute m a) (substitute m b)"
| "substitute m (Max_expr a b) = Max_expr (substitute m a) (substitute m b)"
| "substitute m (EQ a b) = EQ (substitute m a) (substitute m b)"
| "substitute m (LE a b) = LE (substitute m a) (substitute m b)"
| "substitute m (GE a b) = GE (substitute m a) (substitute m b)"
| "substitute m (Select c a b) = Select (substitute m c) (substitute m a) (substitute m b)"
| "substitute m (Call f es) = Call f (map (substitute m) es)"
| "substitute m (Let_expr n a b) = Let_expr n (substitute m a) (substitute (m(n := None)) b)"

definition substitute1 :: "string \<Rightarrow> expr \<Rightarrow> expr \<Rightarrow> expr" where
  "substitute1 n replacement e = substitute [n \<mapsto> replacement] e"

fun substitute_stmt :: "(string \<rightharpoonup> expr) \<Rightarrow> stmt \<Rightarrow> stmt" where
  "substitute_stmt m (Evaluate e) = Evaluate (substitute m e)"
| "substitute_stmt m (Provide n vs as) = Provide n (map (substitute m) vs) (map (substitute m) as)"
| "substitute_stmt m (Block a b) = Block (substitute_stmt m a) (substitute_stmt m b)"
| "substitute_stmt m (IfThenElse c t e) =
     IfThenElse (substitute m c) (substitute_stmt m t)
       (case e of None \<Rightarrow> None | Some s \<Rightarrow> Some (substitute_stmt m s))"
| "substitute_stmt m (LetStmt n v b) =
     LetStmt n (substitute m v) (substitute_stmt (m(n := None)) b)"
| "substitute_stmt m (For n mn ex ft dev b) =
     For n (substitute m mn) (substitute m ex) ft dev (substitute_stmt (m(n := None)) b)"
| "substitute_stmt m (ProducerConsumer n p b) = ProducerConsumer n p (substitute_stmt m b)"
| "substitute_stmt m (Realize n bs c b) =
     Realize n (map (\<lambda>(mn, ex). (substitute m mn, substitute m ex)) bs) (substitute m c)
       (substitute_stmt m b)"

section \<open>The per-loop slider\<close>

text \<open>State shared by the whole pass: the compiler logger, when one is installed, with
  the records it has received, and the counter behind \<open>unique_name\<close>.\<close>

record globals =
  logger :: "(string \<times> expr) list option"
  name_count :: nat

text \<open>State of one \<open>SlidingWindowOnFunctionAndLoop\<close>: the replacement map and the new
  loop minimum (\<open>None\<close> for an undefined expression).\<close>

record state = globals +
  replacements :: "string \<rightharpoonup> expr"
  new_loop_min :: "expr option"

text \<open>\<open>is_dim_always_pure\<close>: the argument at \<open>dim_idx\<close> is the variable \<open>dim\<close>, in the
  definition and in each of its specializations, stopping at the first that fails.\<close>

fun is_dim_always_pure :: "defn \<Rightarrow> string \<Rightarrow> nat \<Rightarrow> error + bool"
  and specializations_pure :: "(expr \<times> defn) list \<Rightarrow> string \<Rightarrow> nat \<Rightarrow> error + bool" where
  "is_dim_always_pure (Definition args specs) dim dim_idx =
     (if dim_idx < length args then
        (case args ! dim_idx of
           Variable n \<Rightarrow> if n \<noteq> dim then Inr False else specializations_pure specs dim dim_idx
         | _ \<Rightarrow> Inr False)
      else Inl Out_of_range)"
| "specializations_pure [] dim dim_idx = Inr True"
| "specializations_pure (s # ss) dim dim_idx =
     (case is_dim_always_pure (snd s) dim dim_idx of
        Inl e \<Rightarrow> Inl e
      | Inr pure \<Rightarrow> if \<not> pure then Inr False else specializations_pure ss dim dim_idx)"

text \<open>The loop over the update definitions (lines 206-212), left at the first impure one.\<close>

fun updates_pure :: "defn list \<Rightarrow> string \<Rightarrow> nat \<Rightarrow> error + bool" where
  "updates_pure [] dim dim_idx = Inr True"
| "updates_pure (d # ds) dim dim_idx =
     (case is_dim_always_pure d dim dim_idx of
        Inl e \<Rightarrow> Inl e
      | Inr pure \<Rightarrow> if \<not> pure then Inr False else updates_pure ds dim dim_idx)"

text \<open>The selection so far: \<open>dim\<close>, \<open>dim_idx\<close> and the pair \<open>min_required\<close>,
  \<open>max_required\<close>, which the source always sets and clears together.\<close>

type_synonym selection = "string \<times> nat \<times> (expr \<times> expr) option"

text \<open>The loop over the dimensions (lines 162-195): \<open>n\<close> is \<open>func.dimensions()\<close>, \<open>i\<close> the
  index of the head of the arguments still to visit. \<open>break\<close> is the branch that returns
  at once; a bound name missing from the scope trips the assertion.\<close>

fun select_loop ::
  "oracles \<Rightarrow> scope \<Rightarrow> string \<Rightarrow> string \<Rightarrow> nat \<Rightarrow> nat \<Rightarrow> string list \<Rightarrow> selection
     \<Rightarrow> error + selection" where
  "select_loop orc sc loop_var prefix n i [] sel = Inr sel"
| "select_loop orc sc loop_var prefix n i (a # as) (dim, dim_idx, required) =
     (let var = prefix @ a in
      case (sc (var @ ''.min''), sc (var @ ''.max'')) of
        (Some mn, Some mx) \<Rightarrow>
          (let min_req = expand_expr mn sc; max_req = expand_expr mx sc in
           if expr_depends_on_var min_req loop_var \<or> expr_depends_on_var max_req loop_var then
             (if dim \<noteq> [] then Inr ([], dim_idx, None)
              else select_loop orc sc loop_var prefix n (Suc i) as (a, i, Some (min_req, max_req)))
           else if required = None \<and> int i = int n - 1 \<and>
                   is_pure orc min_req \<and> is_pure orc max_req then
             select_loop orc sc loop_var prefix n (Suc i) as (a, i, Some (min_req, max_req))
           else select_loop orc sc loop_var prefix n (Suc i) as (dim, dim_idx, required))
      | _ \<Rightarrow> Inl Internal_assert)"

definition stage_prefix :: "func \<Rightarrow> string" where
  "stage_prefix f = func_name f @ ''.s'' @ to_string (length (func_updates f)) @ ''.''"

definition select_dim :: "oracles \<Rightarrow> func \<Rightarrow> string \<Rightarrow> scope \<Rightarrow> error + selection" where
  "select_dim orc f loop_var sc =
     select_loop orc sc loop_var (stage_prefix f) (dimensions f) 0 (func_args f) ([], 0, None)"

text \<open>The direction decision (lines 220-242). The logger receives a record only when one is
  installed.\<close>

definition record_non_monotonic_loop_var :: "string \<Rightarrow> expr \<Rightarrow> state \<Rightarrow> state" where
  "record_non_monotonic_loop_var v e st =
     st\<lparr>logger := (case logger st of None \<Rightarrow> None | Some l \<Rightarrow> Some (l @ [(v, e)]))\<rparr>"

definition can_slide_up :: "oracles \<Rightarrow> expr \<Rightarrow> string \<Rightarrow> bool" where
  "can_slide_up orc min_required loop_var =
     (is_monotonic orc min_required loop_var = Increasing \<or>
      is_monotonic orc min_required loop_var = Constant)"

definition can_slide_down :: "oracles \<Rightarrow> expr \<Rightarrow> string \<Rightarrow> bool" where
  "can_slide_down orc max_required loop_var =
     (is_monotonic orc max_required loop_var = Decreasing \<or>
      is_monotonic orc max_required loop_var = Constant)"

definition report_monotonic :: "oracles \<Rightarrow> string \<Rightarrow> expr \<Rightarrow> expr \<Rightarrow> state \<Rightarrow> state" where
  "report_monotonic orc loop_var min_required max_required st =
     (let st1 = (if can_slide_up orc min_required loop_var then st
                 else if is_monotonic orc min_required loop_var = Unknown
                 then record_non_monotonic_loop_var loop_var min_required st else st)
      in if can_slide_down orc max_required loop_var then st1
         else if is_monotonic orc max_required loop_var = Unknown
         then record_non_monotonic_loop_var loop_var max_required st1 else st1)"

text \<open>The bounds of the adjacent iteration and the overlap guard (lines 260-275).\<close>

definition prev_max_plus_one :: "string \<Rightarrow> expr \<Rightarrow> expr" where
  "prev_max_plus_one loop_var max_required =
     Add (substitute1 loop_var (Sub (Variable loop_var) (IntImm 1)) max_required) (IntImm 1)"

definition prev_min_minus_one :: "string \<Rightarrow> expr \<Rightarrow> expr" where
  "prev_min_minus_one loop_var min_required =
     Sub (substitute1 loop_var (Sub (Variable loop_var) (IntImm 1)) min_required) (IntImm 1)"

definition no_overlap :: "oracles \<Rightarrow> string \<Rightarrow> expr \<Rightarrow> expr \<Rightarrow> bool" where
  "no_overlap orc loop_var min_required max_required =
     (can_prove orc (GE min_required (prev_max_plus_one loop_var max_required)) \<or>
      can_prove orc (LE max_required (prev_min_minus_one loop_var min_required)))"

text \<open>The equation for the new loop start, in the fresh variable \<open>new_loop_min_name\<close>.\<close>

definition new_loop_min_eq ::
  "oracles \<Rightarrow> string \<Rightarrow> expr \<Rightarrow> string \<Rightarrow> expr \<Rightarrow> expr \<Rightarrow> bool \<Rightarrow> expr" where
  "new_loop_min_eq orc loop_var loop_min new_loop_min_name min_required max_required up =
     lower_safe_promises orc
       (if up then
          EQ (substitute1 loop_var loop_min min_required)
             (substitute1 loop_var (Variable new_loop_min_name) (prev_max_plus_one loop_var max_required))
        else
          EQ (substitute1 loop_var loop_min max_required)
             (substitute1 loop_var (Variable new_loop_min_name) (prev_min_minus_one loop_var min_required)))"

definition single_point :: "interval \<Rightarrow> bool" where
  "single_point solve_result =
     (has_upper_bound solve_result \<and> interval_min solve_result = interval_max solve_result)"

text \<open>Solving for the new loop start and choosing the new region (lines 277-319); the
  result is \<open>new_min\<close>, \<open>new_max\<close> and the state.\<close>

definition solve_new_region ::
  "oracles \<Rightarrow> string \<Rightarrow> expr \<Rightarrow> expr \<Rightarrow> expr \<Rightarrow> bool \<Rightarrow> state \<Rightarrow> error + expr \<times> expr \<times> state" where
  "solve_new_region orc loop_var loop_min min_required max_required up st =
     (let new_loop_min_name = unique_name orc CHR ''x'' (name_count st);
          st1 = st\<lparr>name_count := Suc (name_count st)\<rparr>;
          solve_result =
            solve_for_inner_interval orc
              (new_loop_min_eq orc loop_var loop_min new_loop_min_name min_required max_required up)
              new_loop_min_name
      in if single_point solve_result then
           (if new_loop_min st1 \<noteq> None then Inl Internal_assert
            else
              let adopted = simplify orc (interval_max solve_result);
                  st2 = st1\<lparr>new_loop_min := (if adopted = loop_min then None else Some adopted)\<rparr>
              in if up then Inr (prev_max_plus_one loop_var max_required, max_required, st2)
                 else Inr (min_required, prev_min_minus_one loop_var min_required, st2))
         else if up then
           Inr (Select (LE (Variable loop_var) loop_min) min_required
                  (likely_if_innermost (prev_max_plus_one loop_var max_required)),
                max_required, st1)
         else
           Inr (min_required,
                Select (LE (Variable loop_var) loop_min) max_required
                  (likely_if_innermost (prev_min_minus_one loop_var min_required)),
                st1))"

text \<open>Recording the replacements (lines 330-361): the bounds of every earlier stage become
  aliases of the last stage's bound names, and with update definitions the rewritten bound
  is widened by the box the producer body provides.\<close>

definition alias_update ::
  "func \<Rightarrow> string \<Rightarrow> nat \<Rightarrow> (string \<rightharpoonup> expr) \<Rightarrow> (string \<rightharpoonup> expr)" where
  "alias_update f dim i r =
     (let n = func_name f @ ''.s'' @ to_string i @ ''.'' @ dim in
      (r(n @ ''.min'' \<mapsto> Variable (stage_prefix f @ dim @ ''.min'')))
        (n @ ''.max'' \<mapsto> Variable (stage_prefix f @ dim @ ''.max'')))"

definition rewrite_bounds ::
  "oracles \<Rightarrow> func \<Rightarrow> string \<Rightarrow> expr \<Rightarrow> stmt \<Rightarrow> string \<Rightarrow> nat \<Rightarrow> expr \<Rightarrow> expr \<Rightarrow> bool \<Rightarrow> state
     \<Rightarrow> error + stmt \<times> state" where
  "rewrite_bounds orc f loop_var loop_min body dim dim_idx min_required max_required up st =
     (case solve_new_region orc loop_var loop_min min_required max_required up st of
        Inl e \<Rightarrow> Inl e
      | Inr (new_min, new_max, st2) \<Rightarrow>
          (let stmt = ProducerConsumer (func_name f) True body;
               r1 = (if up then (replacements st2)(stage_prefix f @ dim @ ''.min'' \<mapsto> new_min)
                     else (replacements st2)(stage_prefix f @ dim @ ''.max'' \<mapsto> new_max));
               r2 = fold (alias_update f dim) [0..<length (func_updates f)] r1;
               st3 = st2\<lparr>replacements := r2\<rparr>
           in if func_updates f \<noteq> [] then
                (let b = box_provided orc body (func_name f) in
                 if dim_idx < length b then
                   (if up then
                      (let n = stage_prefix f @ dim @ ''.min'' in
                       Inr (LetStmt n (Min_expr (Variable n) (interval_min (b ! dim_idx))) stmt, st3))
                    else
                      (let n = stage_prefix f @ dim @ ''.max'' in
                       Inr (LetStmt n (Max_expr (Variable n) (interval_max (b ! dim_idx))) stmt, st3)))
                 else Inl Out_of_range)
              else Inr (stmt, st3)))"

text \<open>The producer node of the stage itself: \<open>body\<close> is its body, and the node is not
  descended into.\<close>

definition visit_producer ::
  "oracles \<Rightarrow> func \<Rightarrow> string \<Rightarrow> expr \<Rightarrow> scope \<Rightarrow> stmt \<Rightarrow> state \<Rightarrow> error + stmt \<times> state" where
  "visit_producer orc f loop_var loop_min sc body st =
     (let stmt = ProducerConsumer (func_name f) True body in
      case select_dim orc f loop_var sc of
        Inl e \<Rightarrow> Inl e
      | Inr (dim, dim_idx, None) \<Rightarrow> Inr (stmt, st)
      | Inr (dim, dim_idx, Some (min_required, max_required)) \<Rightarrow>
          (case updates_pure (func_updates f) dim dim_idx of
             Inl e \<Rightarrow> Inl e
           | Inr pure \<Rightarrow>
               if \<not> pure then Inr (stmt, st)
               else
                 (let st1 = report_monotonic orc loop_var min_required max_required st in
                  if \<not> can_slide_up orc min_required loop_var \<and>
                     \<not> can_slide_down orc max_required loop_var
                  then Inr (stmt, st1)
                  else if no_overlap orc loop_var min_required max_required then Inr (stmt, st1)
                  else rewrite_bounds orc f loop_var loop_min body dim dim_idx
                         min_required max_required (can_slide_up orc min_required loop_var) st1)))"

text \<open>The guard of a consumer that must not run during the warmup iterations.\<close>

definition warmup_guard :: "string \<Rightarrow> expr" where
  "warmup_guard loop_var =
     likely_if_innermost (GE (Variable loop_var) (Variable (loop_var @ ''.loop_min.orig'')))"

definition is_For :: "stmt \<Rightarrow> bool" where
  "is_For s = (case s of For n mn ex ft dev b \<Rightarrow> True | _ \<Rightarrow> False)"

text \<open>\<open>SlidingWindowOnFunctionAndLoop::mutate\<close>. No expression visitor is overridden, so
  expressions are returned as they are; the statement kinds without an override take the
  default traversal, children in order. A single-trip loop is handed to the \<open>LetStmt\<close>
  case as a fresh node and unpacked again.\<close>

function sliding_window_on_function_and_loop ::
  "oracles \<Rightarrow> func \<Rightarrow> string \<Rightarrow> expr \<Rightarrow> scope \<Rightarrow> stmt \<Rightarrow> state \<Rightarrow> error + stmt \<times> state" where
  "sliding_window_on_function_and_loop orc f loop_var loop_min sc (Evaluate e) st =
     Inr (Evaluate e, st)"
| "sliding_window_on_function_and_loop orc f loop_var loop_min sc (Provide n vs as) st =
     Inr (Provide n vs as, st)"
| "sliding_window_on_function_and_loop orc f loop_var loop_min sc (Block a b) st =
     (case sliding_window_on_function_and_loop orc f loop_var loop_min sc a st of
        Inl e \<Rightarrow> Inl e
      | Inr (a', st1) \<Rightarrow>
          (case sliding_window_on_function_and_loop orc f loop_var loop_min sc b st1 of
             Inl e \<Rightarrow> Inl e
           | Inr (b', st2) \<Rightarrow> Inr (Block a' b', st2)))"
| "sliding_window_on_function_and_loop orc f loop_var loop_min sc (IfThenElse c t el) st =
     (case sliding_window_on_function_and_loop orc f loop_var loop_min sc t st of
        Inl e \<Rightarrow> Inl e
      | Inr (t', st1) \<Rightarrow>
          (case el of
             None \<Rightarrow> Inr (IfThenElse c t' None, st1)
           | Some s \<Rightarrow>
               (case sliding_window_on_function_and_loop orc f loop_var loop_min sc s st1 of
                  Inl e \<Rightarrow> Inl e
                | Inr (s', st2) \<Rightarrow> Inr (IfThenElse c t' (Some s'), st2))))"
| "sliding_window_on_function_and_loop orc f loop_var loop_min sc (Realize n bs c b) st =
     (case sliding_window_on_function_and_loop orc f loop_var loop_min sc b st of
        Inl e \<Rightarrow> Inl e
      | Inr (b', st1) \<Rightarrow> Inr (Realize n bs c b', st1))"
| "sliding_window_on_function_and_loop orc f loop_var loop_min sc (LetStmt n v b) st =
     (case sliding_window_on_function_and_loop orc f loop_var loop_min
             (sc(n \<mapsto> simplify orc (expand_expr v sc))) b st of
        Inl e \<Rightarrow> Inl e
      | Inr (b', st1) \<Rightarrow>
          (case replacements st1 n of
             Some v' \<Rightarrow> Inr (LetStmt n v' b', st1\<lparr>replacements := (replacements st1)(n := None)\<rparr>)
           | None \<Rightarrow> Inr (LetStmt n v b', st1)))"
| "sliding_window_on_function_and_loop orc f loop_var loop_min sc (For n mn ex ft dev b) st =
     (let min = expand_expr mn sc; extent = expand_expr ex sc in
      if is_const_one orc extent then
        (case sliding_window_on_function_and_loop orc f loop_var loop_min sc (LetStmt n min b) st of
           Inl e \<Rightarrow> Inl e
         | Inr (s, st1) \<Rightarrow>
             (case s of
                LetStmt n' v' b' \<Rightarrow> Inr (For n mn ex ft dev b', st1)
              | _ \<Rightarrow> Inl Internal_assert))
      else if is_monotonic orc min loop_var \<noteq> Constant \<or>
              is_monotonic orc extent loop_var \<noteq> Constant then
        Inr (For n mn ex ft dev b, st)
      else
        (case sliding_window_on_function_and_loop orc f loop_var loop_min sc b st of
           Inl e \<Rightarrow> Inl e
         | Inr (b', st1) \<Rightarrow> Inr (For n mn ex ft dev b', st1)))"
| "sliding_window_on_function_and_loop orc f loop_var loop_min sc (ProducerConsumer n is_producer b) st =
     (if is_producer then
        (if n \<noteq> func_name f then
           (case sliding_window_on_function_and_loop orc f loop_var loop_min sc b st of
              Inl e \<Rightarrow> Inl e
            | Inr (b', st1) \<Rightarrow> Inr (ProducerConsumer n is_producer b', st1))
         else visit_producer orc f loop_var loop_min sc b st)
      else if \<not> find_produce (ProducerConsumer n is_producer b) (func_name f) \<and>
              new_loop_min st \<noteq> None then
        (case sliding_window_on_function_and_loop orc f loop_var loop_min sc b st of
           Inl e \<Rightarrow> Inl e
         | Inr (b', st1) \<Rightarrow>
             Inr (ProducerConsumer n False (IfThenElse (warmup_guard loop_var) b' None), st1))
      else
        (case sliding_window_on_function_and_loop orc f loop_var loop_min sc b st of
           Inl e \<Rightarrow> Inl e
         | Inr (b', st1) \<Rightarrow> Inr (ProducerConsumer n is_producer b', st1)))"
  by pat_completeness auto
termination
  by (relation "measure (\<lambda>(orc, f, loop_var, loop_min, sc, s, st). 2 * size s + (if is_For s then 1 else 0))")
     (auto simp: is_For_def)

section \<open>The per-stage driver\<close>

text \<open>The number of loops of a statement: the slider and the renaming keep it, which is
  why the driver, which recurses into the body they return, terminates.\<close>


fun count_for :: "stmt \<Rightarrow> nat" where
  "count_for (Evaluate e) = 0"
| "count_for (Provide n vs as) = 0"
| "count_for (Block a b) = count_for a + count_for b"
| "count_for (IfThenElse c t el) = count_for t + (case el of None \<Rightarrow> 0 | Some s \<Rightarrow> count_for s)"
| "count_for (LetStmt n v b) = count_for b"
| "count_for (For n mn ex ft dev b) = Suc (count_for b)"
| "count_for (ProducerConsumer n p b) = count_for b"
| "count_for (Realize n bs c b) = count_for b"

lemma count_for_substitute_stmt: "count_for (substitute_stmt m s) = count_for s"
  by (induction s arbitrary: m) (auto split: option.splits)

lemma count_for_rewrite_bounds:
  assumes "rewrite_bounds orc f loop_var loop_min body dim dim_idx mn mx up st = Inr (s', st')"
  shows "count_for s' = count_for body"
proof (cases "solve_new_region orc loop_var loop_min mn mx up st")
  case (Inl e)
  with assms show ?thesis by (simp add: rewrite_bounds_def)
next
  case (Inr r)
  obtain new_min new_max st2 where r: "r = (new_min, new_max, st2)" by (cases r) auto
  from assms Inr r show ?thesis
    by (auto simp: rewrite_bounds_def Let_def split: if_splits)
qed


lemma count_for_visit_producer:
  assumes "visit_producer orc f loop_var loop_min sc body st = Inr (s', st')"
  shows "count_for s' = count_for body"
proof (cases "select_dim orc f loop_var sc")
  case (Inl e)
  with assms show ?thesis by (simp add: visit_producer_def)
next
  case (Inr sel)
  obtain dim dim_idx required where sel: "sel = (dim, dim_idx, required)" by (cases sel) auto
  show ?thesis
  proof (cases required)
    case None
    with assms Inr sel show ?thesis by (auto simp: visit_producer_def)
  next
    case (Some mm)
    obtain mn mx where mm: "mm = (mn, mx)" by (cases mm) auto
    show ?thesis
    proof (cases "updates_pure (func_updates f) dim dim_idx")
      case (Inl e)
      with assms Inr sel Some mm show ?thesis by (simp add: visit_producer_def)
    next
      case pure: (Inr pure)
      from assms Inr sel Some mm pure show ?thesis
        by (auto simp: visit_producer_def Let_def split: if_splits
                 dest: count_for_rewrite_bounds)
    qed
  qed
qed


lemma count_for_slider:
  "sliding_window_on_function_and_loop orc f loop_var loop_min sc s st = Inr (s', st')
     \<Longrightarrow> count_for s' = count_for s"
proof (induction orc f loop_var loop_min sc s st arbitrary: s' st'
       rule: sliding_window_on_function_and_loop.induct)
  case (1 orc f loop_var loop_min sc e st)
  then show ?case by simp
next
  case (2 orc f loop_var loop_min sc n vs as st)
  then show ?case by simp
next
  case (3 orc f loop_var loop_min sc a b st)
  then show ?case by (auto split: sum.splits prod.splits)
next
  case (4 orc f loop_var loop_min sc c t el st)
  then show ?case by (auto split: sum.splits prod.splits option.splits)
next
  case (5 orc f loop_var loop_min sc n bs c b st)
  then show ?case by (auto split: sum.splits prod.splits)
next
  case (6 orc f loop_var loop_min sc n v b st)
  then show ?case by (auto simp del: fun_upd_apply split: sum.splits prod.splits option.splits)
next
  case (7 orc f loop_var loop_min sc n mn ex ft dev b st)
  show ?case
  proof (cases "is_const_one orc (expand_expr ex sc)")
    case True
    with "7.prems" obtain s1 where
      r: "sliding_window_on_function_and_loop orc f loop_var loop_min sc
            (LetStmt n (expand_expr mn sc) b) st = Inr (s1, st')"
      and s1: "\<exists>n' v' b'. s1 = LetStmt n' v' b' \<and> s' = For n mn ex ft dev b'"
      by (auto simp: Let_def split: sum.splits prod.splits stmt.splits)
    from "7.IH"(1)[OF refl refl True r] s1 show ?thesis by auto
  next
    case False
    show ?thesis
    proof (cases "is_monotonic orc (expand_expr mn sc) loop_var \<noteq> Constant \<or>
              is_monotonic orc (expand_expr ex sc) loop_var \<noteq> Constant")
      case True
      with False "7.prems" show ?thesis by (auto simp: Let_def)
    next
      case nm: False
      with False "7.prems" obtain b' where
        r: "sliding_window_on_function_and_loop orc f loop_var loop_min sc b st = Inr (b', st')"
        and s': "s' = For n mn ex ft dev b'"
        by (auto simp: Let_def split: sum.splits prod.splits)
      from "7.IH"(2)[OF refl refl False nm r] s' show ?thesis by simp
    qed
  qed
next
  case (8 orc f loop_var loop_min sc n is_producer b st)
  show ?case
  proof (cases "is_producer \<and> n = func_name f")
    case True
    with "8.prems" show ?thesis by (auto dest: count_for_visit_producer)
  next
    case False
    with "8.prems" obtain b' where
      r: "sliding_window_on_function_and_loop orc f loop_var loop_min sc b st = Inr (b', st')"
      and s': "count_for s' = count_for b'"
      by (auto split: sum.splits prod.splits if_splits)
    from False r "8.IH" have "count_for b' = count_for b"
      by (cases is_producer; cases "find_produce b (func_name f)"; cases "new_loop_min st") auto
    with s' show ?thesis by simp
  qed
qed

text \<open>The name of the loop's maximum: the name of the variable that is the loop's minimum
  with its last two characters replaced by \<open>ax\<close>. On a name shorter than two characters
  the unsigned length wraps and \<open>substr\<close> keeps the whole name.\<close>

definition loop_max_name_of :: "string \<Rightarrow> string" where
  "loop_max_name_of m = (if length m < 2 then m else take (length m - 2) m) @ ''ax''"

text \<open>First half of \<open>SlidingWindowOnFunction::visit(For)\<close>: a fresh slider runs over the body
  of a serial or unrolled loop. The result is the new body, the new loop name, the new
  loop minimum with the new extent when the slider set one, and the shared state.\<close>

definition slide_over_loop ::
  "oracles \<Rightarrow> func \<Rightarrow> string \<Rightarrow> expr \<Rightarrow> for_type \<Rightarrow> stmt \<Rightarrow> globals
     \<Rightarrow> error + stmt \<times> string \<times> (expr \<times> expr) option \<times> globals" where
  "slide_over_loop orc f n mn ft body g =
     (if ft = Serial \<or> ft = Unrolled then
        (case sliding_window_on_function_and_loop orc f n mn Map.empty body
                \<lparr>logger = logger g, name_count = name_count g,
                 replacements = Map.empty, new_loop_min = None\<rparr> of
           Inl e \<Rightarrow> Inl e
         | Inr (new_body, st) \<Rightarrow>
             (let g1 = \<lparr>logger = logger st, name_count = name_count st\<rparr> in
              case new_loop_min st of
                None \<Rightarrow> Inr (new_body, n, None, g1)
              | Some slider_min \<Rightarrow>
                  (case mn of
                     Variable m \<Rightarrow>
                       (let new_loop_name = n @ ''.n'';
                            loop_max = Variable (loop_max_name_of m);
                            new_loop_extent =
                              Add (Sub loop_max (Variable (new_loop_name @ ''.loop_min''))) (IntImm 1)
                        in Inr (new_body, new_loop_name, Some (slider_min, new_loop_extent), g1))
                   | _ \<Rightarrow> Inl Null_pointer)))
      else Inr (body, n, None, g))"

text \<open>The renaming that removes the shadowing of the old loop variable and its bounds.\<close>

definition renames :: "string \<Rightarrow> string \<Rightarrow> (string \<rightharpoonup> expr)" where
  "renames n new_loop_name =
     [n \<mapsto> Variable new_loop_name,
      n @ ''.loop_extent'' \<mapsto> Variable (new_loop_name @ ''.loop_extent''),
      n @ ''.loop_min'' \<mapsto> Variable (new_loop_name @ ''.loop_min'')]"

text \<open>The four bindings put around a loop whose minimum changed, outermost first.\<close>

definition wrap_new_loop :: "string \<Rightarrow> expr \<Rightarrow> expr \<Rightarrow> stmt \<Rightarrow> stmt" where
  "wrap_new_loop new_loop_name slider_min new_loop_extent new_for =
     LetStmt (new_loop_name @ ''.loop_min'') slider_min
       (LetStmt (new_loop_name @ ''.loop_min.orig'') (Variable (new_loop_name @ ''.loop_min''))
          (LetStmt (new_loop_name @ ''.loop_extent'') new_loop_extent
             (LetStmt (new_loop_name @ ''.loop_max'')
                (Sub (Add (Variable (new_loop_name @ ''.loop_min''))
                          (Variable (new_loop_name @ ''.loop_extent''))) (IntImm 1))
                new_for)))"

lemma count_for_slide_over_loop:
  "slide_over_loop orc f n mn ft body g = Inr (new_body, new_loop_name, slid, g1)
     \<Longrightarrow> count_for new_body = count_for body"
  by (cases "ft = Serial \<or> ft = Unrolled")
     (auto simp: slide_over_loop_def Let_def dest: count_for_slider
           split: sum.splits prod.splits option.splits expr.splits)

text \<open>\<open>SlidingWindowOnFunction::mutate\<close>: the loop case is overridden, every other statement
  takes the default traversal.\<close>

function sliding_window_on_function ::
  "oracles \<Rightarrow> func \<Rightarrow> stmt \<Rightarrow> globals \<Rightarrow> error + stmt \<times> globals" where
  "sliding_window_on_function orc f (Evaluate e) g = Inr (Evaluate e, g)"
| "sliding_window_on_function orc f (Provide n vs as) g = Inr (Provide n vs as, g)"
| "sliding_window_on_function orc f (Block a b) g =
     (case sliding_window_on_function orc f a g of
        Inl e \<Rightarrow> Inl e
      | Inr (a', g1) \<Rightarrow>
          (case sliding_window_on_function orc f b g1 of
             Inl e \<Rightarrow> Inl e
           | Inr (b', g2) \<Rightarrow> Inr (Block a' b', g2)))"
| "sliding_window_on_function orc f (IfThenElse c t el) g =
     (case sliding_window_on_function orc f t g of
        Inl e \<Rightarrow> Inl e
      | Inr (t', g1) \<Rightarrow>
          (case el of
             None \<Rightarrow> Inr (IfThenElse c t' None, g1)
           | Some s \<Rightarrow>
               (case sliding_window_on_function orc f s g1 of
                  Inl e \<Rightarrow> Inl e
                | Inr (s', g2) \<Rightarrow> Inr (IfThenElse c t' (Some s'), g2))))"
| "sliding_window_on_function orc f (LetStmt n v b) g =
     (case sliding_window_on_function orc f b g of
        Inl e \<Rightarrow> Inl e
      | Inr (b', g1) \<Rightarrow> Inr (LetStmt n v b', g1))"
| "sliding_window_on_function orc f (ProducerConsumer n p b) g =
     (case sliding_window_on_function orc f b g of
        Inl e \<Rightarrow> Inl e
      | Inr (b', g1) \<Rightarrow> Inr (ProducerConsumer n p b', g1))"
| "sliding_window_on_function orc f (Realize n bs c b) g =
     (case sliding_window_on_function orc f b g of
        Inl e \<Rightarrow> Inl e
      | Inr (b', g1) \<Rightarrow> Inr (Realize n bs c b', g1))"
| "sliding_window_on_function orc f (For n mn ex ft dev body) g =
     (case slide_over_loop orc f n mn ft body g of
        Inl e \<Rightarrow> Inl e
      | Inr (slid_body, new_loop_name, slid, g1) \<Rightarrow>
          (let new_min = (if new_loop_name \<noteq> n then Variable (new_loop_name @ ''.loop_min'') else mn);
               new_extent =
                 (if new_loop_name \<noteq> n then Variable (new_loop_name @ ''.loop_extent'') else ex);
               renamed_body =
                 (if new_loop_name \<noteq> n then substitute_stmt (renames n new_loop_name) slid_body
                  else slid_body)
           in case sliding_window_on_function orc f renamed_body g1 of
                Inl e \<Rightarrow> Inl e
              | Inr (new_body, g2) \<Rightarrow>
                  (let new_for = For new_loop_name new_min new_extent ft dev new_body in
                   case slid of
                     None \<Rightarrow> Inr (new_for, g2)
                   | Some (slider_min, new_loop_extent) \<Rightarrow>
                       Inr (wrap_new_loop new_loop_name slider_min new_loop_extent new_for, g2))))"
  by pat_completeness auto
termination
  by (relation "measures [\<lambda>(orc, f, s, g). count_for s, \<lambda>(orc, f, s, g). size s]")
     (simp_all add: count_for_substitute_stmt, auto dest: count_for_slide_over_loop)



section \<open>Meaning of expressions\<close>

text \<open>Modelled from the spec: the value of an expression of type \<open>Int(32)\<close> under an
  assignment of the free variables (the evaluator of the IR is not among the sources).
  Arithmetic wraps at 32 bits, comparisons yield 1 or 0, a let binds its name in its body
  only, and a call has no value here.\<close>

definition lift2 ::
  "(32 word \<Rightarrow> 32 word \<Rightarrow> 32 word) \<Rightarrow> 32 word option \<Rightarrow> 32 word option \<Rightarrow> 32 word option" where
  "lift2 h x y = (case x of None \<Rightarrow> None | Some a \<Rightarrow> (case y of None \<Rightarrow> None | Some b \<Rightarrow> Some (h a b)))"

fun eval :: "(string \<Rightarrow> 32 word) \<Rightarrow> expr \<Rightarrow> 32 word option" where
  "eval env (IntImm i) = Some (word_of_int i)"
| "eval env (Variable n) = Some (env n)"
| "eval env (Add a b) = lift2 (\<lambda>x y. x + y) (eval env a) (eval env b)"
| "eval env (Sub a b) = lift2 (\<lambda>x y. x - y) (eval env a) (eval env b)"
| "eval env (Mul a b) = lift2 (\<lambda>x y. x * y) (eval env a) (eval env b)"
| "eval env (Min_expr a b) = lift2 (\<lambda>x y. if sint x \<le> sint y then x else y) (eval env a) (eval env b)"
| "eval env (Max_expr a b) = lift2 (\<lambda>x y. if sint x \<le> sint y then y else x) (eval env a) (eval env b)"
| "eval env (EQ a b) = lift2 (\<lambda>x y. if x = y then 1 else 0) (eval env a) (eval env b)"
| "eval env (LE a b) = lift2 (\<lambda>x y. if sint x \<le> sint y then 1 else 0) (eval env a) (eval env b)"
| "eval env (GE a b) = lift2 (\<lambda>x y. if sint y \<le> sint x then 1 else 0) (eval env a) (eval env b)"
| "eval env (Select c a b) =
     (case eval env c of None \<Rightarrow> None | Some v \<Rightarrow> if v \<noteq> 0 then eval env a else eval env b)"
| "eval env (Call f es) = None"
| "eval env (Let_expr n a b) =
     (case eval env a of None \<Rightarrow> None | Some v \<Rightarrow> eval (env(n := v)) b)"

section \<open>Predicates of the claims and an example pipeline\<close>

text \<open>The expanded bounds of a dimension as the loop over the dimensions reads them from
  the scope (none when a bound name is missing), and whether one of the two depends on
  the loop variable, or neither does.\<close>


definition dim_bounds :: "scope \<Rightarrow> string \<Rightarrow> string \<Rightarrow> (expr \<times> expr) option" where
  "dim_bounds sc prefix a =
     (case (sc ((prefix @ a) @ ''.min''), sc ((prefix @ a) @ ''.max'')) of
        (Some mn, Some mx) \<Rightarrow> Some (expand_expr mn sc, expand_expr mx sc)
      | _ \<Rightarrow> None)"

definition dim_depends :: "scope \<Rightarrow> string \<Rightarrow> string \<Rightarrow> string \<Rightarrow> bool" where
  "dim_depends sc prefix loop_var a =
     (case dim_bounds sc prefix a of
        Some (mn, mx) \<Rightarrow> expr_depends_on_var mn loop_var \<or> expr_depends_on_var mx loop_var
      | None \<Rightarrow> False)"

definition dim_invariant :: "scope \<Rightarrow> string \<Rightarrow> string \<Rightarrow> string \<Rightarrow> bool" where
  "dim_invariant sc prefix loop_var a =
     (case dim_bounds sc prefix a of
        Some (mn, mx) \<Rightarrow> \<not> expr_depends_on_var mn loop_var \<and> \<not> expr_depends_on_var mx loop_var
      | None \<Rightarrow> False)"

text \<open>An example: stage \<open>A\<close> over \<open>x\<close> and \<open>y\<close>, of which a consumer inside a loop over \<open>y\<close>
  needs the rows \<open>y\<close> to \<open>y + 2\<close>; collaborators that simplify nothing, prove nothing,
  call an expression increasing when it mentions the variable, and solve nothing.\<close>

definition example_oracles :: oracles where
  "example_oracles =
     \<lparr>simplify = (\<lambda>e. e),
      can_prove = (\<lambda>e. False),
      is_monotonic = (\<lambda>e v. if expr_depends_on_var e v then Increasing else Constant),
      solve_for_inner_interval = (\<lambda>e v. \<lparr>interval_min = neg_inf, interval_max = pos_inf\<rparr>),
      lower_safe_promises = (\<lambda>e. e),
      box_provided = (\<lambda>s n. []),
      is_pure = (\<lambda>e. True),
      is_const_one = (\<lambda>e. e = IntImm 1),
      unique_name = (\<lambda>c n. c # to_string n)\<rparr>"

definition stage_A :: func where
  "stage_A =
     \<lparr>func_name = ''A'', func_args = [''x'', ''y''],
      func_definition = Definition [Variable ''x'', Variable ''y''] [],
      func_updates = []\<rparr>"

definition scope_A :: scope where
  "scope_A =
     [''A.s0.x.min'' \<mapsto> IntImm 0, ''A.s0.x.max'' \<mapsto> IntImm 9,
      ''A.s0.y.min'' \<mapsto> Variable ''y'', ''A.s0.y.max'' \<mapsto> Add (Variable ''y'') (IntImm 2)]"

definition initial_state :: state where
  "initial_state =
     \<lparr>logger = Some [], name_count = 0, replacements = Map.empty, new_loop_min = None\<rparr>"


text \<open>The example's oracles with a monotonicity oracle that knows nothing, and with a prover
  that proves everything.\<close>

definition unknown_oracles :: oracles where
  "unknown_oracles = example_oracles\<lparr>is_monotonic := (\<lambda>e v. Unknown)\<rparr>"

definition proving_oracles :: oracles where
  "proving_oracles = example_oracles\<lparr>can_prove := (\<lambda>e. True)\<rparr>"

text \<open>The example's oracles with a solver that finds the single point \<open>y.loop_min - 2\<close>.\<close>

definition solving_oracles :: oracles where
  "solving_oracles =
     example_oracles\<lparr>solve_for_inner_interval :=
       (\<lambda>e v. \<lparr>interval_min = Sub (Variable ''y.loop_min'') (IntImm 2),
                interval_max = Sub (Variable ''y.loop_min'') (IntImm 2)\<rparr>)\<rparr>"







text \<open>The body of a loop over \<open>y\<close> in which stage \<open>A\<close> is produced and consumed, the bounds
  of \<open>A\<close> bound around it; what the slider and the driver make of it; and the same with a
  vectorized loop over \<open>x\<close> in between.\<close>


definition produce_consume :: stmt where
  "produce_consume =
     Block (ProducerConsumer ''A'' True (Provide ''A'' [IntImm 0] [Variable ''x'', Variable ''y'']))
           (ProducerConsumer ''A'' False (Evaluate (Variable ''y'')))"

definition with_bounds :: "stmt \<Rightarrow> stmt" where
  "with_bounds s =
     LetStmt ''A.s0.y.max'' (Add (Variable ''y'') (IntImm 2))
       (LetStmt ''A.s0.y.min'' (Variable ''y'')
          (LetStmt ''A.s0.x.max'' (IntImm 9)
             (LetStmt ''A.s0.x.min'' (IntImm 0) s)))"

definition fresh_state :: state where
  "fresh_state =
     \<lparr>logger = None, name_count = 0, replacements = Map.empty, new_loop_min = None\<rparr>"

definition slid_produce_consume :: stmt where
  "slid_produce_consume =
     Block (ProducerConsumer ''A'' True (Provide ''A'' [IntImm 0] [Variable ''x'', Variable ''y'']))
           (ProducerConsumer ''A'' False
              (IfThenElse
                 (Call ''likely_if_innermost'' [GE (Variable ''y'') (Variable ''y.loop_min.orig'')])
                 (Evaluate (Variable ''y'')) None))"

definition with_slid_bounds :: "stmt \<Rightarrow> stmt" where
  "with_slid_bounds s =
     LetStmt ''A.s0.y.max'' (Add (Variable ''y'') (IntImm 2))
       (LetStmt ''A.s0.y.min'' (Add (Add (Sub (Variable ''y'') (IntImm 1)) (IntImm 2)) (IntImm 1))
          (LetStmt ''A.s0.x.max'' (IntImm 9)
             (LetStmt ''A.s0.x.min'' (IntImm 0) s)))"


definition vector_loop :: "stmt \<Rightarrow> stmt" where
  "vector_loop s =
     For ''x'' (Variable ''x.loop_min'') (Variable ''x.loop_extent'') Vectorized DeviceAPI_None s"

definition bounds_scope :: scope where
  "bounds_scope =
     [''A.s0.y.max'' \<mapsto> Add (Variable ''y'') (IntImm 2), ''A.s0.y.min'' \<mapsto> Variable ''y'',
      ''A.s0.x.max'' \<mapsto> IntImm 9, ''A.s0.x.min'' \<mapsto> IntImm 0]"

definition slid_state :: state where
  "slid_state =
     \<lparr>logger = None, name_count = 1,
      replacements =
        [''A.s0.y.min'' \<mapsto> Add (Add (Sub (Variable ''y'') (IntImm 1)) (IntImm 2)) (IntImm 1)],
      new_loop_min = Some (Sub (Variable ''y.loop_min'') (IntImm 2))\<rparr>"

definition renamed_produce_consume :: stmt where
  "renamed_produce_consume =
     Block (ProducerConsumer ''A'' True (Provide ''A'' [IntImm 0] [Variable ''x'', Variable ''y.n'']))
           (ProducerConsumer ''A'' False
              (IfThenElse
                 (Call ''likely_if_innermost'' [GE (Variable ''y.n'') (Variable ''y.loop_min.orig'')])
                 (Evaluate (Variable ''y.n'')) None))"

definition with_renamed_bounds :: "stmt \<Rightarrow> stmt" where
  "with_renamed_bounds s =
     LetStmt ''A.s0.y.max'' (Add (Variable ''y.n'') (IntImm 2))
       (LetStmt ''A.s0.y.min'' (Add (Add (Sub (Variable ''y.n'') (IntImm 1)) (IntImm 2)) (IntImm 1))
          (LetStmt ''A.s0.x.max'' (IntImm 9)
             (LetStmt ''A.s0.x.min'' (IntImm 0) s)))"

definition serial_loop :: "stmt \<Rightarrow> stmt" where
  "serial_loop s =
     For ''y'' (Variable ''y.loop_min'') (Variable ''y.loop_extent'') Serial DeviceAPI_None s"

definition slid_serial_loop :: "stmt \<Rightarrow> stmt" where
  "slid_serial_loop s =
     LetStmt ''y.n.loop_min'' (Sub (Variable ''y.loop_min'') (IntImm 2))
       (LetStmt ''y.n.loop_min.orig'' (Variable ''y.n.loop_min'')
          (LetStmt ''y.n.loop_extent''
             (Add (Sub (Variable ''y.loop_max'') (Variable ''y.n.loop_min'')) (IntImm 1))
             (LetStmt ''y.n.loop_max''
                (Sub (Add (Variable ''y.n.loop_min'') (Variable ''y.n.loop_extent'')) (IntImm 1))
                (For ''y.n'' (Variable ''y.n.loop_min'') (Variable ''y.n.loop_extent'') Serial
                   DeviceAPI_None s))))"

definition no_globals :: globals where
  "no_globals = \<lparr>logger = None, name_count = 0\<rparr>"

text \<open>The producer of \<open>A\<close> and a consumer of another stage, before the producer and inside a
  loop whose minimum is the loop variable \<open>y\<close>.\<close>

definition produce_A :: stmt where
  "produce_A = ProducerConsumer ''A'' True (Provide ''A'' [IntImm 0] [Variable ''x'', Variable ''y''])"

definition consume_B :: stmt where
  "consume_B = ProducerConsumer ''B'' False (Evaluate (Variable ''y''))"

definition dependent_loop :: "stmt \<Rightarrow> stmt" where
  "dependent_loop s = For ''z'' (Variable ''y'') (IntImm 4) Serial DeviceAPI_None s"
section \<open>Auxiliary facts\<close>

subsection \<open>The loop over the dimensions\<close>
lemma select_step_dependent_first:
  assumes "dim_bounds sc prefix a = Some (mn, mx)" and "dim_depends sc prefix loop_var a"
  shows "select_loop orc sc loop_var prefix n i (a # as) ([], dim_idx, required)
           = select_loop orc sc loop_var prefix n (Suc i) as (a, i, Some (mn, mx))"
  using assms
  by (auto simp: dim_bounds_def dim_depends_def Let_def split: option.splits)

lemma select_step_dependent_second:
  assumes "dim_bounds sc prefix a = Some (mn, mx)" and "dim_depends sc prefix loop_var a"
    and "dim \<noteq> []"
  shows "select_loop orc sc loop_var prefix n i (a # as) (dim, dim_idx, required)
           = Inr ([], dim_idx, None)"
  using assms
  by (auto simp: dim_bounds_def dim_depends_def Let_def split: option.splits)

lemma select_step_invariant_selected:
  assumes "dim_invariant sc prefix loop_var a"
  shows "select_loop orc sc loop_var prefix n i (a # as) (dim, dim_idx, Some r)
           = select_loop orc sc loop_var prefix n (Suc i) as (dim, dim_idx, Some r)"
  using assms
  by (auto simp: dim_bounds_def dim_invariant_def Let_def split: option.splits)

lemma select_step_invariant_inner:
  assumes "dim_invariant sc prefix loop_var a" and "Suc i < n"
  shows "select_loop orc sc loop_var prefix n i (a # as) (dim, dim_idx, None)
           = select_loop orc sc loop_var prefix n (Suc i) as (dim, dim_idx, None)"
  using assms
  by (auto simp: dim_bounds_def dim_invariant_def Let_def split: option.splits)

lemma select_step_invariant_last:
  assumes "dim_invariant sc prefix loop_var a" and "dim_bounds sc prefix a = Some (mn, mx)"
    and "Suc i = n" and "is_pure orc mn" and "is_pure orc mx"
  shows "select_loop orc sc loop_var prefix n i (a # as) (dim, dim_idx, None)
           = select_loop orc sc loop_var prefix n (Suc i) as (a, i, Some (mn, mx))"
  using assms
  by (auto simp: dim_bounds_def dim_invariant_def Let_def split: option.splits)

lemma select_skip_selected:
  assumes "\<forall>b\<in>set pre. dim_invariant sc prefix loop_var b"
  shows "select_loop orc sc loop_var prefix n i (pre @ rest) (dim, dim_idx, Some r)
           = select_loop orc sc loop_var prefix n (i + length pre) rest (dim, dim_idx, Some r)"
  using assms
proof (induction pre arbitrary: i)
  case Nil
  then show ?case by simp
next
  case (Cons b pre)
  then show ?case
    by (simp add: select_step_invariant_selected del: select_loop.simps)
qed

lemma select_skip_inner:
  assumes "\<forall>b\<in>set pre. dim_invariant sc prefix loop_var b" and "i + length pre < n"
  shows "select_loop orc sc loop_var prefix n i (pre @ rest) (dim, dim_idx, None)
           = select_loop orc sc loop_var prefix n (i + length pre) rest (dim, dim_idx, None)"
  using assms
proof (induction pre arbitrary: i)
  case Nil
  then show ?case by simp
next
  case (Cons b pre)
  then show ?case
    by (simp add: select_step_invariant_inner del: select_loop.simps)
qed


lemma select_dim_exactly_one:
  assumes "func_args f = pre @ a # post"
    and "\<forall>b\<in>set pre \<union> set post. dim_invariant sc (stage_prefix f) loop_var b"
    and "dim_bounds sc (stage_prefix f) a = Some (mn, mx)"
    and "dim_depends sc (stage_prefix f) loop_var a"
  shows "select_dim orc f loop_var sc = Inr (a, length pre, Some (mn, mx))"
proof -
  have "select_dim orc f loop_var sc
          = select_loop orc sc loop_var (stage_prefix f) (dimensions f) (0 + length pre)
              (a # post) ([], 0, None)"
    unfolding select_dim_def assms(1)
    by (rule select_skip_inner) (use assms in \<open>auto simp: dimensions_def\<close>)
  also have "\<dots> = select_loop orc sc loop_var (stage_prefix f) (dimensions f) (Suc (length pre))
              (post @ []) (a, length pre, Some (mn, mx))"
    using select_step_dependent_first [OF assms(3,4)] by simp
  also have "\<dots> = Inr (a, length pre, Some (mn, mx))"
    using assms(2) by (subst select_skip_selected) auto
  finally show ?thesis .
qed

lemma select_dim_more_than_one:
  assumes "func_args f = pre @ a # mid @ b # post"
    and "\<forall>c\<in>set pre \<union> set mid. dim_invariant sc (stage_prefix f) loop_var c"
    and "dim_bounds sc (stage_prefix f) a = Some (mn, mx)"
    and "dim_depends sc (stage_prefix f) loop_var a"
    and "dim_bounds sc (stage_prefix f) b = Some (mn', mx')"
    and "dim_depends sc (stage_prefix f) loop_var b"
    and "a \<noteq> []"
  shows "select_dim orc f loop_var sc = Inr ([], length pre, None)"
proof -
  have "select_dim orc f loop_var sc
          = select_loop orc sc loop_var (stage_prefix f) (dimensions f) (0 + length pre)
              (a # mid @ b # post) ([], 0, None)"
    unfolding select_dim_def assms(1)
    by (rule select_skip_inner) (use assms in \<open>auto simp: dimensions_def\<close>)
  also have "\<dots> = select_loop orc sc loop_var (stage_prefix f) (dimensions f) (Suc (length pre))
              (mid @ b # post) (a, length pre, Some (mn, mx))"
    using select_step_dependent_first [OF assms(3,4)] by simp
  also have "\<dots> = select_loop orc sc loop_var (stage_prefix f) (dimensions f)
              (Suc (length pre) + length mid) (b # post) (a, length pre, Some (mn, mx))"
    using assms(2) by (subst select_skip_selected) auto
  also have "\<dots> = Inr ([], length pre, None)"
    by (rule select_step_dependent_second [OF assms(5,6,7)])
  finally show ?thesis .
qed

lemma select_dim_none_depends:
  assumes "func_args f \<noteq> []"
    and "\<forall>b\<in>set (func_args f). dim_invariant sc (stage_prefix f) loop_var b"
    and "dim_bounds sc (stage_prefix f) (last (func_args f)) = Some (mn, mx)"
    and "is_pure orc mn" and "is_pure orc mx"
  shows "select_dim orc f loop_var sc
           = Inr (last (func_args f), length (func_args f) - 1, Some (mn, mx))"
proof -
  let ?pre = "butlast (func_args f)" and ?a = "last (func_args f)"
  have split: "func_args f = ?pre @ [?a]" using assms(1) by simp
  have len: "Suc (length ?pre) = dimensions f"
    using assms(1) by (simp add: dimensions_def)
  have inv_pre: "\<forall>b\<in>set ?pre. dim_invariant sc (stage_prefix f) loop_var b"
    using assms(2) by (auto dest: in_set_butlastD)
  have inv_last: "dim_invariant sc (stage_prefix f) loop_var ?a"
    using assms(1,2) by simp
  have "select_dim orc f loop_var sc
          = select_loop orc sc loop_var (stage_prefix f) (dimensions f) 0 (?pre @ [?a]) ([], 0, None)"
    unfolding select_dim_def using split by simp
  also have "\<dots> = select_loop orc sc loop_var (stage_prefix f) (dimensions f) (0 + length ?pre)
              [?a] ([], 0, None)"
    by (rule select_skip_inner) (use inv_pre len in auto)
  also have "\<dots> = select_loop orc sc loop_var (stage_prefix f) (dimensions f) (Suc (length ?pre))
              [] (?a, length ?pre, Some (mn, mx))"
    using select_step_invariant_last [OF inv_last assms(3) len assms(4,5)] by simp
  finally show ?thesis by simp
qed



lemma visit_producer_no_selection:
  assumes "select_dim orc f loop_var sc = Inr (dim, dim_idx, None)"
  shows "visit_producer orc f loop_var loop_min sc body st
           = Inr (ProducerConsumer (func_name f) True body, st)"
  using assms by (simp add: visit_producer_def)



subsection \<open>Bound names and the replacement map\<close>


lemma digit_char_inj:
  assumes "digit_char a = digit_char b" and "a < 10" and "b < 10"
  shows "a = b"
proof -
  have a: "a \<in> {0, 1, 2, 3, 4, 5, 6, 7, 8, 9}" using assms(2) by auto
  have b: "b \<in> {0, 1, 2, 3, 4, 5, 6, 7, 8, 9}" using assms(3) by auto
  from a b assms(1) show ?thesis
    by (auto simp: digit_char_def)
qed

lemma to_string_not_Nil: "to_string n \<noteq> []"
  by (subst to_string.simps) simp

lemma to_string_inj: "to_string a = to_string b \<Longrightarrow> a = b"
proof (induction a arbitrary: b rule: to_string.induct)
  case (1 a)
  show ?case
  proof (cases "a < 10")
    case True
    show ?thesis
    proof (cases "b < 10")
      case b: True
      from "1.prems" True b have "digit_char a = digit_char b"
        by (simp add: to_string.simps)
      with True b show ?thesis by (rule_tac digit_char_inj)
    next
      case b: False
      from "1.prems" True b have "[digit_char a] = to_string (b div 10) @ [digit_char (b mod 10)]"
        by (simp add: to_string.simps)
      then have "to_string (b div 10) = []" by simp
      with to_string_not_Nil show ?thesis by blast
    qed
  next
    case False
    show ?thesis
    proof (cases "b < 10")
      case b: True
      from "1.prems" False b have "to_string (a div 10) @ [digit_char (a mod 10)] = [digit_char b]"
        by (simp add: to_string.simps)
      then have "to_string (a div 10) = []" by simp
      with to_string_not_Nil show ?thesis by blast
    next
      case b: False
      from "1.prems" False b have
        "to_string (a div 10) @ [digit_char (a mod 10)] = to_string (b div 10) @ [digit_char (b mod 10)]"
        by (simp add: to_string.simps)
      then have q: "to_string (a div 10) = to_string (b div 10)"
        and r: "digit_char (a mod 10) = digit_char (b mod 10)" by simp_all
      from "1.IH" [OF False q] have "a div 10 = b div 10" .
      moreover from r have "a mod 10 = b mod 10" by (rule digit_char_inj) simp_all
      ultimately show ?thesis by (metis div_mult_mod_eq)
    qed
  qed
qed

lemma key_suffix_differs: "xs @ ''.min'' \<noteq> ys @ ''.max''"
proof
  assume "xs @ ''.min'' = ys @ ''.max''"
  then have "last (xs @ ''.min'') = last (ys @ ''.max'')" by simp
  then show False by simp
qed

lemma alias_update_other:
  assumes "key \<noteq> (func_name f @ ''.s'' @ to_string i @ ''.'' @ dim) @ ''.min''"
    and "key \<noteq> (func_name f @ ''.s'' @ to_string i @ ''.'' @ dim) @ ''.max''"
  shows "alias_update f dim i r key = r key"
  using assms by (simp add: alias_update_def Let_def)

lemma stage_key_not_alias:
  assumes "i < length (func_updates f)"
  shows "stage_prefix f @ dim @ ''.min'' \<noteq> (func_name f @ ''.s'' @ to_string i @ ''.'' @ dim) @ ''.min''"
    and "stage_prefix f @ dim @ ''.min'' \<noteq> (func_name f @ ''.s'' @ to_string i @ ''.'' @ dim) @ ''.max''"
    and "stage_prefix f @ dim @ ''.max'' \<noteq> (func_name f @ ''.s'' @ to_string i @ ''.'' @ dim) @ ''.min''"
    and "stage_prefix f @ dim @ ''.max'' \<noteq> (func_name f @ ''.s'' @ to_string i @ ''.'' @ dim) @ ''.max''"
proof -
  from assms have ne: "to_string (length (func_updates f)) \<noteq> to_string i"
    using to_string_inj by fastforce
  show "stage_prefix f @ dim @ ''.min'' \<noteq> (func_name f @ ''.s'' @ to_string i @ ''.'' @ dim) @ ''.min''"
    using ne by (simp add: stage_prefix_def)
  show "stage_prefix f @ dim @ ''.max'' \<noteq> (func_name f @ ''.s'' @ to_string i @ ''.'' @ dim) @ ''.max''"
    using ne by (simp add: stage_prefix_def)
  show "stage_prefix f @ dim @ ''.min'' \<noteq> (func_name f @ ''.s'' @ to_string i @ ''.'' @ dim) @ ''.max''"
    using key_suffix_differs [of "stage_prefix f @ dim"] by simp
  show "stage_prefix f @ dim @ ''.max'' \<noteq> (func_name f @ ''.s'' @ to_string i @ ''.'' @ dim) @ ''.min''"
    using key_suffix_differs [of "func_name f @ ''.s'' @ to_string i @ ''.'' @ dim" "stage_prefix f @ dim"]
    by simp
qed

lemma fold_alias_update_stage_min:
  "k \<le> length (func_updates f) \<Longrightarrow>
     fold (alias_update f dim) [0..<k] r (stage_prefix f @ dim @ ''.min'')
       = r (stage_prefix f @ dim @ ''.min'')"
proof (induction k)
  case 0
  show ?case by simp
next
  case (Suc k)
  then have k: "k < length (func_updates f)" by simp
  have "alias_update f dim k (fold (alias_update f dim) [0..<k] r) (stage_prefix f @ dim @ ''.min'')
          = fold (alias_update f dim) [0..<k] r (stage_prefix f @ dim @ ''.min'')"
    by (rule alias_update_other [OF stage_key_not_alias(1) [OF k] stage_key_not_alias(2) [OF k]])
  with Suc.IH k show ?case by simp
qed

lemma fold_alias_update_stage_max:
  "k \<le> length (func_updates f) \<Longrightarrow>
     fold (alias_update f dim) [0..<k] r (stage_prefix f @ dim @ ''.max'')
       = r (stage_prefix f @ dim @ ''.max'')"
proof (induction k)
  case 0
  show ?case by simp
next
  case (Suc k)
  then have k: "k < length (func_updates f)" by simp
  have "alias_update f dim k (fold (alias_update f dim) [0..<k] r) (stage_prefix f @ dim @ ''.max'')
          = fold (alias_update f dim) [0..<k] r (stage_prefix f @ dim @ ''.max'')"
    by (rule alias_update_other [OF stage_key_not_alias(3) [OF k] stage_key_not_alias(4) [OF k]])
  with Suc.IH k show ?case by simp
qed

text \<open>What the producer case leaves in the state.\<close>

lemma report_monotonic_fields:
  "replacements (report_monotonic orc loop_var mn mx st) = replacements st"
  "new_loop_min (report_monotonic orc loop_var mn mx st) = new_loop_min st"
  "name_count (report_monotonic orc loop_var mn mx st) = name_count st"
  by (simp_all add: report_monotonic_def record_non_monotonic_loop_var_def Let_def)

lemma report_monotonic_logger:
  "logger (report_monotonic orc loop_var mn mx st)
     = (case logger st of
          None \<Rightarrow> None
        | Some l \<Rightarrow>
            Some (l @ (if is_monotonic orc mn loop_var = Unknown then [(loop_var, mn)] else [])
                    @ (if is_monotonic orc mx loop_var = Unknown then [(loop_var, mx)] else [])))"
  by (auto simp: report_monotonic_def record_non_monotonic_loop_var_def Let_def
                 can_slide_up_def can_slide_down_def split: option.splits)

lemma solve_new_region_fields:
  assumes "solve_new_region orc loop_var loop_min mn mx up st = Inr (new_min, new_max, st2)"
  shows "replacements st2 = replacements st" and "logger st2 = logger st"
    and "name_count st2 = Suc (name_count st)"
  using assms
  by (auto simp: solve_new_region_def Let_def split: if_splits)

lemma rewrite_bounds_result:
  assumes "rewrite_bounds orc f loop_var loop_min body dim dim_idx mn mx up st = Inr (s', st')"
  obtains new_min new_max st2 where
    "solve_new_region orc loop_var loop_min mn mx up st = Inr (new_min, new_max, st2)"
    "new_loop_min st' = new_loop_min st2"
    "logger st' = logger st"
    "replacements st' (stage_prefix f @ dim @ ''.min'')
       = (if up then Some new_min else replacements st (stage_prefix f @ dim @ ''.min''))"
    "replacements st' (stage_prefix f @ dim @ ''.max'')
       = (if up then replacements st (stage_prefix f @ dim @ ''.max'') else Some new_max)"
proof (cases "solve_new_region orc loop_var loop_min mn mx up st")
  case (Inl e)
  with assms show ?thesis by (simp add: rewrite_bounds_def)
next
  case (Inr r)
  obtain new_min new_max st2 where r: "r = (new_min, new_max, st2)" by (cases r) auto
  note flds = solve_new_region_fields [OF Inr [unfolded r]]
  let ?r1 = "if up then (replacements st2)(stage_prefix f @ dim @ ''.min'' \<mapsto> new_min)
             else (replacements st2)(stage_prefix f @ dim @ ''.max'' \<mapsto> new_max)"
  from assms Inr r have st': "st' = st2\<lparr>replacements :=
      fold (alias_update f dim) [0..<length (func_updates f)] ?r1\<rparr>"
    by (auto simp: rewrite_bounds_def Let_def split: if_splits)
  show ?thesis
  proof (rule that [of new_min new_max st2])
    show "solve_new_region orc loop_var loop_min mn mx up st = Inr (new_min, new_max, st2)"
      using Inr r by simp
    show "new_loop_min st' = new_loop_min st2" using st' by simp
    show "logger st' = logger st" using st' flds by simp
    show "replacements st' (stage_prefix f @ dim @ ''.min'')
       = (if up then Some new_min else replacements st (stage_prefix f @ dim @ ''.min''))"
      using st' flds key_suffix_differs [of "stage_prefix f @ dim" "stage_prefix f @ dim"]
      by (simp add: fold_alias_update_stage_min)
    show "replacements st' (stage_prefix f @ dim @ ''.max'')
       = (if up then replacements st (stage_prefix f @ dim @ ''.max'') else Some new_max)"
      using st' flds key_suffix_differs [of "stage_prefix f @ dim" "stage_prefix f @ dim"]
      by (simp add: fold_alias_update_stage_max)
  qed
qed

lemma visit_producer_selected:
  assumes "select_dim orc f loop_var sc = Inr (dim, dim_idx, Some (mn, mx))"
    and "updates_pure (func_updates f) dim dim_idx = Inr True"
  shows "visit_producer orc f loop_var loop_min sc body st =
     (if \<not> can_slide_up orc mn loop_var \<and> \<not> can_slide_down orc mx loop_var
      then Inr (ProducerConsumer (func_name f) True body, report_monotonic orc loop_var mn mx st)
      else if no_overlap orc loop_var mn mx
      then Inr (ProducerConsumer (func_name f) True body, report_monotonic orc loop_var mn mx st)
      else rewrite_bounds orc f loop_var loop_min body dim dim_idx mn mx
             (can_slide_up orc mn loop_var) (report_monotonic orc loop_var mn mx st))"
  using assms by (simp add: visit_producer_def Let_def)


lemma report_monotonic_eq:
  "report_monotonic orc loop_var mn mx st
     = st\<lparr>logger :=
          (case logger st of
             None \<Rightarrow> None
           | Some l \<Rightarrow>
               Some (l @ (if is_monotonic orc mn loop_var = Unknown then [(loop_var, mn)] else [])
                       @ (if is_monotonic orc mx loop_var = Unknown then [(loop_var, mx)] else [])))\<rparr>"
  by (auto simp: report_monotonic_def record_non_monotonic_loop_var_def Let_def
                 can_slide_up_def can_slide_down_def split: option.splits)


lemma visit_producer_impure:
  assumes "select_dim orc f loop_var sc = Inr (dim, dim_idx, Some (mn, mx))"
    and "updates_pure (func_updates f) dim dim_idx = Inr False"
  shows "visit_producer orc f loop_var loop_min sc body st
           = Inr (ProducerConsumer (func_name f) True body, st)"
  using assms by (simp add: visit_producer_def Let_def)


lemma solve_new_region_single:
  assumes "single_point (solve_for_inner_interval orc
             (new_loop_min_eq orc loop_var loop_min (unique_name orc CHR ''x'' (name_count st)) mn mx up)
             (unique_name orc CHR ''x'' (name_count st)))"
    and "new_loop_min st = None"
  shows "solve_new_region orc loop_var loop_min mn mx up st =
           Inr (if up then prev_max_plus_one loop_var mx else mn,
                if up then mx else prev_min_minus_one loop_var mn,
                st\<lparr>name_count := Suc (name_count st),
                   new_loop_min :=
                     (let adopted = simplify orc (interval_max (solve_for_inner_interval orc
                        (new_loop_min_eq orc loop_var loop_min
                           (unique_name orc CHR ''x'' (name_count st)) mn mx up)
                        (unique_name orc CHR ''x'' (name_count st))))
                      in if adopted = loop_min then None else Some adopted)\<rparr>)"
  using assms by (simp add: solve_new_region_def Let_def)

lemma solve_new_region_assert:
  assumes "single_point (solve_for_inner_interval orc
             (new_loop_min_eq orc loop_var loop_min (unique_name orc CHR ''x'' (name_count st)) mn mx up)
             (unique_name orc CHR ''x'' (name_count st)))"
    and "new_loop_min st = Some e"
  shows "solve_new_region orc loop_var loop_min mn mx up st = Inl Internal_assert"
  using assms by (simp add: solve_new_region_def Let_def)

lemma solve_new_region_guarded:
  assumes "\<not> single_point (solve_for_inner_interval orc
             (new_loop_min_eq orc loop_var loop_min (unique_name orc CHR ''x'' (name_count st)) mn mx up)
             (unique_name orc CHR ''x'' (name_count st)))"
  shows "solve_new_region orc loop_var loop_min mn mx up st =
           Inr (if up then Select (LE (Variable loop_var) loop_min) mn
                             (likely_if_innermost (prev_max_plus_one loop_var mx))
                else mn,
                if up then mx
                else Select (LE (Variable loop_var) loop_min) mx
                       (likely_if_innermost (prev_min_minus_one loop_var mn)),
                st\<lparr>name_count := Suc (name_count st)\<rparr>)"
  using assms by (simp add: solve_new_region_def Let_def)

lemma rewrite_bounds_returns:
  assumes "solve_new_region orc loop_var loop_min mn mx up st = Inr r"
    and "func_updates f = [] \<or> dim_idx < length (box_provided orc body (func_name f))"
  shows "\<exists>s' st'. rewrite_bounds orc f loop_var loop_min body dim dim_idx mn mx up st = Inr (s', st')"
  using assms by (cases r) (auto simp: rewrite_bounds_def Let_def)

lemma rewrite_bounds_error:
  assumes "solve_new_region orc loop_var loop_min mn mx up st = Inl e"
  shows "rewrite_bounds orc f loop_var loop_min body dim dim_idx mn mx up st = Inl e"
  using assms by (simp add: rewrite_bounds_def)

lemma visit_producer_rewrites:
  assumes "select_dim orc f loop_var sc = Inr (dim, dim_idx, Some (mn, mx))"
    and "updates_pure (func_updates f) dim dim_idx = Inr True"
    and "can_slide_up orc mn loop_var \<or> can_slide_down orc mx loop_var"
    and "\<not> no_overlap orc loop_var mn mx"
  shows "visit_producer orc f loop_var loop_min sc body st =
           rewrite_bounds orc f loop_var loop_min body dim dim_idx mn mx
             (can_slide_up orc mn loop_var) (report_monotonic orc loop_var mn mx st)"
  using assms(3,4) by (auto simp: visit_producer_selected [OF assms(1,2)])


lemma rewrite_bounds_keeps_new_loop_min:
  assumes "rewrite_bounds orc f loop_var loop_min body dim dim_idx mn mx up st = Inr (s', st')"
    and "new_loop_min st = Some e"
  shows "new_loop_min st' = Some e"
proof -
  from assms(1) obtain new_min new_max st2 where
    solve: "solve_new_region orc loop_var loop_min mn mx up st = Inr (new_min, new_max, st2)"
    and nlm: "new_loop_min st' = new_loop_min st2"
    by (rule rewrite_bounds_result)
  from solve assms(2) have "new_loop_min st2 = Some e"
    by (auto simp: solve_new_region_def Let_def split: if_splits)
  with nlm show ?thesis by simp
qed

lemma visit_producer_keeps_new_loop_min:
  assumes "visit_producer orc f loop_var loop_min sc body st = Inr (s', st')"
    and "new_loop_min st = Some e"
  shows "new_loop_min st' = Some e"
proof (cases "select_dim orc f loop_var sc")
  case (Inl err)
  with assms show ?thesis by (simp add: visit_producer_def)
next
  case (Inr sel)
  obtain dim dim_idx required where sel: "sel = (dim, dim_idx, required)" by (cases sel) auto
  show ?thesis
  proof (cases required)
    case None
    with assms Inr sel show ?thesis by (auto simp: visit_producer_def)
  next
    case (Some mm)
    obtain mn mx where mm: "mm = (mn, mx)" by (cases mm) auto
    show ?thesis
    proof (cases "updates_pure (func_updates f) dim dim_idx")
      case (Inl err)
      with assms Inr sel Some mm show ?thesis by (simp add: visit_producer_def)
    next
      case pure: (Inr pure)
      show ?thesis
      proof (cases pure)
        case False
        with assms Inr sel Some mm pure show ?thesis by (simp add: visit_producer_def)
      next
        case True
        from assms(1) Inr sel Some mm pure True
        have "st' = report_monotonic orc loop_var mn mx st \<or>
              rewrite_bounds orc f loop_var loop_min body dim dim_idx mn mx
                (can_slide_up orc mn loop_var) (report_monotonic orc loop_var mn mx st) = Inr (s', st')"
          by (auto simp: visit_producer_def Let_def split: if_splits)
        then show ?thesis
          using assms(2) rewrite_bounds_keeps_new_loop_min [of orc f loop_var loop_min body dim dim_idx
            mn mx "can_slide_up orc mn loop_var" "report_monotonic orc loop_var mn mx st" s' st' e]
          by (auto simp: report_monotonic_fields)
      qed
    qed
  qed
qed

lemma slider_keeps_new_loop_min:
  "sliding_window_on_function_and_loop orc f loop_var loop_min sc s st = Inr (s', st')
     \<Longrightarrow> new_loop_min st = Some e \<Longrightarrow> new_loop_min st' = Some e"
proof (induction orc f loop_var loop_min sc s st arbitrary: s' st'
       rule: sliding_window_on_function_and_loop.induct)
  case (1 orc f loop_var loop_min sc e st)
  then show ?case by simp
next
  case (2 orc f loop_var loop_min sc n vs as st)
  then show ?case by simp
next
  case (3 orc f loop_var loop_min sc a b st)
  from "3.prems"(1) obtain a' st1 b' where
    ra: "sliding_window_on_function_and_loop orc f loop_var loop_min sc a st = Inr (a', st1)"
    and rb: "sliding_window_on_function_and_loop orc f loop_var loop_min sc b st1 = Inr (b', st')"
    by (auto split: sum.splits prod.splits)
  from "3.IH"(1) [OF ra "3.prems"(2)] have "new_loop_min st1 = Some e" .
  from "3.IH"(2) [OF ra refl rb this] show ?case .
next
  case (4 orc f loop_var loop_min sc c t el st)
  from "4.prems"(1) obtain t' st1 where
    rt: "sliding_window_on_function_and_loop orc f loop_var loop_min sc t st = Inr (t', st1)"
    by (auto split: sum.splits prod.splits)
  from "4.IH"(1) [OF rt "4.prems"(2)] have n1: "new_loop_min st1 = Some e" .
  show ?case
  proof (cases el)
    case None
    with "4.prems"(1) rt n1 show ?thesis by simp
  next
    case (Some s)
    with "4.prems"(1) rt obtain s1 where
      rs: "sliding_window_on_function_and_loop orc f loop_var loop_min sc s st1 = Inr (s1, st')"
      by (auto split: sum.splits prod.splits)
    from "4.IH"(2) [OF rt refl Some rs n1] show ?thesis .
  qed
next
  case (5 orc f loop_var loop_min sc n bs c b st)
  from "5.prems"(1) obtain b' where
    rb: "sliding_window_on_function_and_loop orc f loop_var loop_min sc b st = Inr (b', st')"
    by (auto split: sum.splits prod.splits)
  from "5.IH" [OF rb "5.prems"(2)] show ?case .
next
  case (6 orc f loop_var loop_min sc n v b st)
  from "6.prems"(1) obtain b' st1 where
    rb: "sliding_window_on_function_and_loop orc f loop_var loop_min
           (sc(n \<mapsto> simplify orc (expand_expr v sc))) b st = Inr (b', st1)"
    and st': "new_loop_min st' = new_loop_min st1"
    by (auto simp del: fun_upd_apply split: sum.splits prod.splits option.splits)
  from "6.IH" [OF rb "6.prems"(2)] st' show ?case by simp
next
  case (7 orc f loop_var loop_min sc n mn ex ft dev b st)
  show ?case
  proof (cases "is_const_one orc (expand_expr ex sc)")
    case True
    with "7.prems" obtain s1 where
      r: "sliding_window_on_function_and_loop orc f loop_var loop_min sc
            (LetStmt n (expand_expr mn sc) b) st = Inr (s1, st')"
      by (auto simp: Let_def split: sum.splits prod.splits stmt.splits)
    from "7.IH"(1)[OF refl refl True r "7.prems"(2)] show ?thesis .
  next
    case False
    show ?thesis
    proof (cases "is_monotonic orc (expand_expr mn sc) loop_var \<noteq> Constant \<or>
              is_monotonic orc (expand_expr ex sc) loop_var \<noteq> Constant")
      case True
      with False "7.prems" show ?thesis by (auto simp: Let_def)
    next
      case nm: False
      with False "7.prems" obtain b' where
        r: "sliding_window_on_function_and_loop orc f loop_var loop_min sc b st = Inr (b', st')"
        by (auto simp: Let_def split: sum.splits prod.splits)
      from "7.IH"(2)[OF refl refl False nm r "7.prems"(2)] show ?thesis .
    qed
  qed
next
  case (8 orc f loop_var loop_min sc n is_producer b st)
  show ?case
  proof (cases "is_producer \<and> n = func_name f")
    case True
    with "8.prems" show ?thesis by (auto dest: visit_producer_keeps_new_loop_min)
  next
    case False
    with "8.prems" obtain b' where
      r: "sliding_window_on_function_and_loop orc f loop_var loop_min sc b st = Inr (b', st')"
      by (auto split: sum.splits prod.splits if_splits)
    from False r "8.IH" "8.prems"(2) show ?thesis
      by (cases is_producer; cases "find_produce b (func_name f)") auto
  qed
qed











subsection \<open>The example pipeline\<close>

lemma stage_A_fields:
  "func_name stage_A = ''A''" "func_args stage_A = [''x'', ''y'']" "func_updates stage_A = []"
  by (simp_all add: stage_A_def)

lemma example_prefix: "stage_prefix stage_A = ''A.s0.''"
  by (simp add: stage_prefix_def stage_A_fields to_string.simps digit_char_def)


lemma example_select_y:
  "select_dim orc stage_A ''y'' scope_A
     = Inr (''y'', 1, Some (Variable ''y'', Add (Variable ''y'') (IntImm 2)))"
  by (simp add: select_dim_def example_prefix dimensions_def stage_A_fields scope_A_def)

lemma example_updates_pure: "updates_pure (func_updates stage_A) dim dim_idx = Inr True"
  by (simp add: stage_A_fields)

lemma example_direction:
  "can_slide_up example_oracles (Variable ''y'') ''y''"
  "can_slide_up solving_oracles (Variable ''y'') ''y''"
  "\<not> no_overlap example_oracles ''y'' mn mx"
  "\<not> no_overlap solving_oracles ''y'' mn mx"
  by (simp_all add: can_slide_up_def no_overlap_def example_oracles_def solving_oracles_def)






lemma solving_oracles_facts:
  "simplify solving_oracles e = e"
  "is_const_one solving_oracles e = (e = IntImm 1)"
  "is_monotonic solving_oracles e v = (if expr_depends_on_var e v then Increasing else Constant)"
  "interval_max (solve_for_inner_interval solving_oracles e v) = Sub (Variable ''y.loop_min'') (IntImm 2)"
  "single_point (solve_for_inner_interval solving_oracles e v)"
  by (simp_all add: solving_oracles_def example_oracles_def single_point_def has_upper_bound_def
                    pos_inf_def)

lemma example_inner_run:
  "sliding_window_on_function_and_loop solving_oracles stage_A ''y'' (Variable ''y.loop_min'')
     bounds_scope produce_consume fresh_state
   = Inr (slid_produce_consume, slid_state)"
proof -
  have sel: "select_dim solving_oracles stage_A ''y'' bounds_scope
     = Inr (''y'', 1, Some (Variable ''y'', Add (Variable ''y'') (IntImm 2)))"
    by (simp add: select_dim_def example_prefix dimensions_def stage_A_fields bounds_scope_def)
  have report: "report_monotonic solving_oracles ''y'' (Variable ''y'')
                  (Add (Variable ''y'') (IntImm 2)) fresh_state = fresh_state"
    by (simp add: report_monotonic_eq fresh_state_def)
  have solved: "solve_new_region solving_oracles ''y'' (Variable ''y.loop_min'') (Variable ''y'')
                  (Add (Variable ''y'') (IntImm 2)) True fresh_state
     = Inr (prev_max_plus_one ''y'' (Add (Variable ''y'') (IntImm 2)), Add (Variable ''y'') (IntImm 2),
            fresh_state\<lparr>name_count := 1,
              new_loop_min := Some (Sub (Variable ''y.loop_min'') (IntImm 2))\<rparr>)"
    using solve_new_region_single [where orc = solving_oracles and loop_var = "''y''"
            and loop_min = "Variable ''y.loop_min''" and st = fresh_state and mn = "Variable ''y''"
            and mx = "Add (Variable ''y'') (IntImm 2)" and up = True, OF solving_oracles_facts(5)]
    by (simp add: solving_oracles_facts fresh_state_def)
  have prod: "visit_producer solving_oracles stage_A ''y'' (Variable ''y.loop_min'') bounds_scope
                (Provide ''A'' [IntImm 0] [Variable ''x'', Variable ''y'']) fresh_state
     = Inr (ProducerConsumer ''A'' True (Provide ''A'' [IntImm 0] [Variable ''x'', Variable ''y'']),
            slid_state)"
    unfolding visit_producer_rewrites [OF sel example_updates_pure disjI1 [OF example_direction(2)]
      example_direction(4)] report
    by (simp add: rewrite_bounds_def solved example_direction
                  stage_A_fields example_prefix prev_max_plus_one_def substitute1_def)
       (simp add: fresh_state_def slid_state_def)
  show ?thesis
    unfolding produce_consume_def
    by (simp add: stage_A_fields prod slid_produce_consume_def warmup_guard_def
                  likely_if_innermost_def)
       (simp add: slid_state_def)
qed

lemma example_slider_run:
  "sliding_window_on_function_and_loop solving_oracles stage_A ''y'' (Variable ''y.loop_min'')
     Map.empty (with_bounds produce_consume) fresh_state
   = Inr (with_slid_bounds slid_produce_consume,
          slid_state\<lparr>replacements := Map.empty\<rparr>)"
  unfolding with_bounds_def
  by (simp add: solving_oracles_facts(1) example_inner_run [unfolded bounds_scope_def]
                with_slid_bounds_def)
     (simp add: slid_state_def)

lemma example_nested_run:
  "sliding_window_on_function_and_loop solving_oracles stage_A ''y'' (Variable ''y.loop_min'')
     Map.empty (with_bounds (vector_loop produce_consume)) fresh_state
   = Inr (with_slid_bounds (vector_loop slid_produce_consume),
          slid_state\<lparr>replacements := Map.empty\<rparr>)"
  unfolding with_bounds_def vector_loop_def
  by (simp add: solving_oracles_facts(1,2,3) example_inner_run [unfolded bounds_scope_def]
                with_slid_bounds_def)
     (simp add: slid_state_def)

lemma example_renaming:
  "substitute_stmt (renames ''y'' ''y.n'') (with_slid_bounds slid_produce_consume)
     = with_renamed_bounds renamed_produce_consume"
  "substitute_stmt (renames ''y'' ''y.n'') (with_slid_bounds (vector_loop slid_produce_consume))
     = with_renamed_bounds (vector_loop renamed_produce_consume)"
  by (simp_all add: renames_def with_slid_bounds_def slid_produce_consume_def vector_loop_def
                    with_renamed_bounds_def renamed_produce_consume_def)

lemma example_driver_inner:
  "sliding_window_on_function orc f (with_renamed_bounds renamed_produce_consume) g
     = Inr (with_renamed_bounds renamed_produce_consume, g)"
  by (simp add: with_renamed_bounds_def renamed_produce_consume_def)


lemma example_producer_run:
  "visit_producer solving_oracles stage_A ''y'' (Variable ''y.loop_min'') bounds_scope
     (Provide ''A'' [IntImm 0] [Variable ''x'', Variable ''y'']) fresh_state
   = Inr (produce_A, slid_state)"
proof -
  have sel: "select_dim solving_oracles stage_A ''y'' bounds_scope
     = Inr (''y'', 1, Some (Variable ''y'', Add (Variable ''y'') (IntImm 2)))"
    by (simp add: select_dim_def example_prefix dimensions_def stage_A_fields bounds_scope_def)
  have report: "report_monotonic solving_oracles ''y'' (Variable ''y'')
                  (Add (Variable ''y'') (IntImm 2)) fresh_state = fresh_state"
    by (simp add: report_monotonic_eq fresh_state_def)
  have solved: "solve_new_region solving_oracles ''y'' (Variable ''y.loop_min'') (Variable ''y'')
                  (Add (Variable ''y'') (IntImm 2)) True fresh_state
     = Inr (prev_max_plus_one ''y'' (Add (Variable ''y'') (IntImm 2)), Add (Variable ''y'') (IntImm 2),
            fresh_state\<lparr>name_count := 1,
              new_loop_min := Some (Sub (Variable ''y.loop_min'') (IntImm 2))\<rparr>)"
    using solve_new_region_single [where orc = solving_oracles and loop_var = "''y''"
            and loop_min = "Variable ''y.loop_min''" and st = fresh_state and mn = "Variable ''y''"
            and mx = "Add (Variable ''y'') (IntImm 2)" and up = True, OF solving_oracles_facts(5)]
    by (simp add: solving_oracles_facts fresh_state_def)
  show ?thesis
    unfolding visit_producer_rewrites [OF sel example_updates_pure disjI1 [OF example_direction(2)]
      example_direction(4)] report
    by (simp add: rewrite_bounds_def solved example_direction produce_A_def
                  stage_A_fields example_prefix prev_max_plus_one_def substitute1_def)
       (simp add: fresh_state_def slid_state_def)
qed


subsection \<open>Names and values of the new loop bounds\<close>

lemma loop_max_name_of_loop_min: "loop_max_name_of (n @ ''.loop_min'') = n @ ''.loop_max''"
  by (simp add: loop_max_name_of_def)

lemma last_loop_max_name_of: "last (loop_max_name_of m) = CHR ''x''"
  by (simp add: loop_max_name_of_def)

lemma loop_max_name_of_fresh:
  "loop_max_name_of m \<noteq> n @ ''.n.loop_min''"
  "loop_max_name_of m \<noteq> n @ ''.n.loop_min.orig''"
proof -
  show "loop_max_name_of m \<noteq> n @ ''.n.loop_min''"
  proof
    assume "loop_max_name_of m = n @ ''.n.loop_min''"
    then have "last (loop_max_name_of m) = last (n @ ''.n.loop_min'')" by simp
    then show False by (simp add: last_loop_max_name_of)
  qed
  show "loop_max_name_of m \<noteq> n @ ''.n.loop_min.orig''"
  proof
    assume "loop_max_name_of m = n @ ''.n.loop_min.orig''"
    then have "last (loop_max_name_of m) = last (n @ ''.n.loop_min.orig'')" by simp
    then show False by (simp add: last_loop_max_name_of)
  qed
qed

lemma new_loop_bounds_value:
  "eval (env(n @ ''.n.loop_min'' := v, n @ ''.n.loop_min.orig'' := v))
     (Add (Sub (Variable (loop_max_name_of m)) (Variable (n @ ''.n.loop_min''))) (IntImm 1))
   = Some (env (loop_max_name_of m) - v + 1)"
  "eval (env(n @ ''.n.loop_min'' := v, n @ ''.n.loop_min.orig'' := v,
             n @ ''.n.loop_extent'' := env (loop_max_name_of m) - v + 1))
     (Sub (Add (Variable (n @ ''.n.loop_min'')) (Variable (n @ ''.n.loop_extent''))) (IntImm 1))
   = Some (env (loop_max_name_of m))"
  by (simp_all add: lift2_def loop_max_name_of_fresh)


subsection \<open>The loop case of the driver\<close>


lemma slide_over_loop_slid:
  assumes "ft = Serial \<or> ft = Unrolled"
    and "sliding_window_on_function_and_loop orc f n (Variable m) Map.empty body
           \<lparr>logger = logger g, name_count = name_count g,
            replacements = Map.empty, new_loop_min = None\<rparr> = Inr (slid_body, st)"
    and "new_loop_min st = Some new_min"
  shows "slide_over_loop orc f n (Variable m) ft body g
           = Inr (slid_body, n @ ''.n'',
                  Some (new_min,
                        Add (Sub (Variable (loop_max_name_of m)) (Variable ((n @ ''.n'') @ ''.loop_min'')))
                            (IntImm 1)),
                  \<lparr>logger = logger st, name_count = name_count st\<rparr>)"
  using assms by (auto simp: slide_over_loop_def Let_def)

lemma slide_over_loop_not_serial:
  assumes "ft \<noteq> Serial" and "ft \<noteq> Unrolled"
  shows "slide_over_loop orc f n mn ft body g = Inr (body, n, None, g)"
  using assms by (simp add: slide_over_loop_def)

lemma driver_slid_loop:
  assumes ft: "ft = Serial \<or> ft = Unrolled"
    and slide: "sliding_window_on_function_and_loop orc f n (Variable m) Map.empty body
           \<lparr>logger = logger g, name_count = name_count g,
            replacements = Map.empty, new_loop_min = None\<rparr> = Inr (slid_body, st)"
    and changed: "new_loop_min st = Some new_min"
    and rest: "sliding_window_on_function orc f
           (substitute_stmt
              [n \<mapsto> Variable (n @ ''.n''),
               n @ ''.loop_extent'' \<mapsto> Variable (n @ ''.n.loop_extent''),
               n @ ''.loop_min'' \<mapsto> Variable (n @ ''.n.loop_min'')] slid_body)
           \<lparr>logger = logger st, name_count = name_count st\<rparr> = Inr (new_body, g')"
  shows
    "sliding_window_on_function orc f (For n (Variable m) ex ft dev body) g
       = Inr (LetStmt (n @ ''.n.loop_min'') new_min
               (LetStmt (n @ ''.n.loop_min.orig'') (Variable (n @ ''.n.loop_min''))
                 (LetStmt (n @ ''.n.loop_extent'')
                    (Add (Sub (Variable (loop_max_name_of m)) (Variable (n @ ''.n.loop_min'')))
                         (IntImm 1))
                   (LetStmt (n @ ''.n.loop_max'')
                      (Sub (Add (Variable (n @ ''.n.loop_min'')) (Variable (n @ ''.n.loop_extent'')))
                           (IntImm 1))
                      (For (n @ ''.n'') (Variable (n @ ''.n.loop_min''))
                         (Variable (n @ ''.n.loop_extent'')) ft dev new_body)))),
              g')"
proof -
  have ren: "renames n (n @ ''.n'')
      = [n \<mapsto> Variable (n @ ''.n''),
         n @ ''.loop_extent'' \<mapsto> Variable (n @ ''.n.loop_extent''),
         n @ ''.loop_min'' \<mapsto> Variable (n @ ''.n.loop_min'')]"
    by (simp add: renames_def)
  show ?thesis
    by (simp add: slide_over_loop_slid [OF ft slide changed] ren rest wrap_new_loop_def
             del: fun_upd_apply)
qed

lemma example_fresh:
  "\<lparr>logger = logger no_globals, name_count = name_count no_globals,
    replacements = Map.empty, new_loop_min = None\<rparr> = fresh_state"
  by (simp add: no_globals_def fresh_state_def)

lemma slider_for_type_irrelevant:
  "(sliding_window_on_function_and_loop orc f loop_var loop_min sc (For n mn ex ft dev body) st
      = Inr (For n mn ex ft dev body', st'))
   = (sliding_window_on_function_and_loop orc f loop_var loop_min sc (For n mn ex ft' dev body) st
      = Inr (For n mn ex ft' dev body', st'))"
proof (cases "is_const_one orc (expand_expr ex sc)")
  case True
  then show ?thesis
    by (auto simp: Let_def split: sum.splits prod.splits stmt.splits)
next
  case False
  then show ?thesis
    by (auto simp: Let_def split: sum.splits prod.splits)
qed

section \<open>The per-loop slider: selection, guards and rewriting\<close>

text \<open>
  C1. Once a dimension is selected and the purity check has passed, the direction of the
  slide follows the monotonicity oracle alone. If the oracle puts \<open>min_required\<close> in
  neither Increasing nor Constant and \<open>max_required\<close> in neither Decreasing nor Constant,
  the producer node comes back as it is, as a result and not as a failure, and only the
  logger has changed. In every result the logger (when one is installed) has received
  the record (loop variable, \<open>min_required\<close>) exactly if the minimum was classified
  Unknown, and the same for the maximum. The bound \<open>.min\<close> of the selected dimension is
  rewritten only if the minimum is Increasing or Constant, the bound \<open>.max\<close> only if the
  maximum is Decreasing or Constant; and past the overlap guard an enabled upward slide
  does rewrite \<open>.min\<close>, and a downward slide (taken when the upward one is not
  enabled) does rewrite \<open>.max\<close>.
\<close>

theorem slide_direction_by_monotonicity:
  assumes sel: "select_dim orc f loop_var sc = Inr (dim, dim_idx, Some (mn, mx))"
    and pure: "updates_pure (func_updates f) dim dim_idx = Inr True"
  shows
    "(is_monotonic orc mn loop_var \<noteq> Increasing \<and> is_monotonic orc mn loop_var \<noteq> Constant \<and>
      is_monotonic orc mx loop_var \<noteq> Decreasing \<and> is_monotonic orc mx loop_var \<noteq> Constant
        \<longrightarrow> visit_producer orc f loop_var loop_min sc body st
              = Inr (ProducerConsumer (func_name f) True body,
                     st\<lparr>logger :=
                          (case logger st of
                             None \<Rightarrow> None
                           | Some l \<Rightarrow>
                               Some (l @ (if is_monotonic orc mn loop_var = Unknown
                                          then [(loop_var, mn)] else [])
                                       @ (if is_monotonic orc mx loop_var = Unknown
                                          then [(loop_var, mx)] else [])))\<rparr>))
     \<and>
     (\<forall>s' st'. visit_producer orc f loop_var loop_min sc body st = Inr (s', st') \<longrightarrow>
        logger st'
          = (case logger st of
               None \<Rightarrow> None
             | Some l \<Rightarrow>
                 Some (l @ (if is_monotonic orc mn loop_var = Unknown then [(loop_var, mn)] else [])
                         @ (if is_monotonic orc mx loop_var = Unknown then [(loop_var, mx)] else [])))
        \<and> (replacements st' (stage_prefix f @ dim @ ''.min'')
              \<noteq> replacements st (stage_prefix f @ dim @ ''.min'')
            \<longrightarrow> is_monotonic orc mn loop_var = Increasing \<or> is_monotonic orc mn loop_var = Constant)
        \<and> (replacements st' (stage_prefix f @ dim @ ''.max'')
              \<noteq> replacements st (stage_prefix f @ dim @ ''.max'')
            \<longrightarrow> is_monotonic orc mx loop_var = Decreasing \<or> is_monotonic orc mx loop_var = Constant)
        \<and> (\<not> no_overlap orc loop_var mn mx \<and>
            (is_monotonic orc mn loop_var = Increasing \<or> is_monotonic orc mn loop_var = Constant)
            \<longrightarrow> replacements st' (stage_prefix f @ dim @ ''.min'') \<noteq> None)
        \<and> (\<not> no_overlap orc loop_var mn mx \<and>
            is_monotonic orc mn loop_var \<noteq> Increasing \<and> is_monotonic orc mn loop_var \<noteq> Constant \<and>
            (is_monotonic orc mx loop_var = Decreasing \<or> is_monotonic orc mx loop_var = Constant)
            \<longrightarrow> replacements st' (stage_prefix f @ dim @ ''.max'') \<noteq> None))"
proof (intro conjI allI impI)
  assume "is_monotonic orc mn loop_var \<noteq> Increasing \<and> is_monotonic orc mn loop_var \<noteq> Constant \<and>
      is_monotonic orc mx loop_var \<noteq> Decreasing \<and> is_monotonic orc mx loop_var \<noteq> Constant"
  then have "\<not> can_slide_up orc mn loop_var \<and> \<not> can_slide_down orc mx loop_var"
    by (simp add: can_slide_up_def can_slide_down_def)
  then show "visit_producer orc f loop_var loop_min sc body st
              = Inr (ProducerConsumer (func_name f) True body,
                     st\<lparr>logger :=
                          (case logger st of
                             None \<Rightarrow> None
                           | Some l \<Rightarrow>
                               Some (l @ (if is_monotonic orc mn loop_var = Unknown
                                          then [(loop_var, mn)] else [])
                                       @ (if is_monotonic orc mx loop_var = Unknown
                                          then [(loop_var, mx)] else [])))\<rparr>)"
    by (simp add: visit_producer_selected [OF sel pure] report_monotonic_eq [symmetric])
next
  fix s' st'
  assume res: "visit_producer orc f loop_var loop_min sc body st = Inr (s', st')"
  let ?st1 = "report_monotonic orc loop_var mn mx st"
  let ?up = "can_slide_up orc mn loop_var"
  let ?down = "can_slide_down orc mx loop_var"
  consider (unchanged) "st' = ?st1" "(\<not> ?up \<and> \<not> ?down) \<or> no_overlap orc loop_var mn mx"
    | (rewritten) "rewrite_bounds orc f loop_var loop_min body dim dim_idx mn mx ?up ?st1 = Inr (s', st')"
        "?up \<or> ?down" "\<not> no_overlap orc loop_var mn mx"
    using res unfolding visit_producer_selected [OF sel pure]
    by (auto split: if_splits)
  then have
    "logger st' = logger ?st1
     \<and> (replacements st' (stage_prefix f @ dim @ ''.min'')
              \<noteq> replacements st (stage_prefix f @ dim @ ''.min'') \<longrightarrow> ?up)
     \<and> (replacements st' (stage_prefix f @ dim @ ''.max'')
              \<noteq> replacements st (stage_prefix f @ dim @ ''.max'') \<longrightarrow> ?down)
     \<and> (\<not> no_overlap orc loop_var mn mx \<and> ?up
          \<longrightarrow> replacements st' (stage_prefix f @ dim @ ''.min'') \<noteq> None)
     \<and> (\<not> no_overlap orc loop_var mn mx \<and> \<not> ?up \<and> ?down
          \<longrightarrow> replacements st' (stage_prefix f @ dim @ ''.max'') \<noteq> None)"
  proof cases
    case unchanged
    then show ?thesis by (auto simp: report_monotonic_fields)
  next
    case rewritten
    from rewritten(1) show ?thesis
    proof (rule rewrite_bounds_result)
      fix new_min new_max st2
      assume "logger st' = logger ?st1"
        and "replacements st' (stage_prefix f @ dim @ ''.min'')
               = (if ?up then Some new_min else replacements ?st1 (stage_prefix f @ dim @ ''.min''))"
        and "replacements st' (stage_prefix f @ dim @ ''.max'')
               = (if ?up then replacements ?st1 (stage_prefix f @ dim @ ''.max'') else Some new_max)"
      with rewritten(2) show ?thesis by (auto simp: report_monotonic_fields)
    qed
  qed
  then have all: "logger st' = logger ?st1"
    "replacements st' (stage_prefix f @ dim @ ''.min'')
       \<noteq> replacements st (stage_prefix f @ dim @ ''.min'') \<Longrightarrow> ?up"
    "replacements st' (stage_prefix f @ dim @ ''.max'')
       \<noteq> replacements st (stage_prefix f @ dim @ ''.max'') \<Longrightarrow> ?down"
    "\<not> no_overlap orc loop_var mn mx \<and> ?up
       \<Longrightarrow> replacements st' (stage_prefix f @ dim @ ''.min'') \<noteq> None"
    "\<not> no_overlap orc loop_var mn mx \<and> \<not> ?up \<and> ?down
       \<Longrightarrow> replacements st' (stage_prefix f @ dim @ ''.max'') \<noteq> None"
    by blast+
  show "logger st'
          = (case logger st of
               None \<Rightarrow> None
             | Some l \<Rightarrow>
                 Some (l @ (if is_monotonic orc mn loop_var = Unknown then [(loop_var, mn)] else [])
                         @ (if is_monotonic orc mx loop_var = Unknown then [(loop_var, mx)] else [])))"
    using all(1) by (simp add: report_monotonic_logger)
  { assume "replacements st' (stage_prefix f @ dim @ ''.min'')
              \<noteq> replacements st (stage_prefix f @ dim @ ''.min'')"
    then show "is_monotonic orc mn loop_var = Increasing \<or> is_monotonic orc mn loop_var = Constant"
      using all(2) by (simp add: can_slide_up_def) }
  { assume "replacements st' (stage_prefix f @ dim @ ''.max'')
              \<noteq> replacements st (stage_prefix f @ dim @ ''.max'')"
    then show "is_monotonic orc mx loop_var = Decreasing \<or> is_monotonic orc mx loop_var = Constant"
      using all(3) by (simp add: can_slide_down_def) }
  { assume "\<not> no_overlap orc loop_var mn mx \<and>
            (is_monotonic orc mn loop_var = Increasing \<or> is_monotonic orc mn loop_var = Constant)"
    then show "replacements st' (stage_prefix f @ dim @ ''.min'') \<noteq> None"
      using all(4) by (simp add: can_slide_up_def) }
  { assume "\<not> no_overlap orc loop_var mn mx \<and>
            is_monotonic orc mn loop_var \<noteq> Increasing \<and> is_monotonic orc mn loop_var \<noteq> Constant \<and>
            (is_monotonic orc mx loop_var = Decreasing \<or> is_monotonic orc mx loop_var = Constant)"
    then show "replacements st' (stage_prefix f @ dim @ ''.max'') \<noteq> None"
      using all(5) by (simp add: can_slide_up_def can_slide_down_def) }
qed


theorem slide_direction_by_monotonicity_witness:
  "select_dim unknown_oracles stage_A ''y'' scope_A
     = Inr (''y'', 1, Some (Variable ''y'', Add (Variable ''y'') (IntImm 2)))
   \<and> updates_pure (func_updates stage_A) ''y'' 1 = Inr True
   \<and> visit_producer unknown_oracles stage_A ''y'' (Variable ''y.loop_min'') scope_A
        (Evaluate (IntImm 0)) initial_state
     = Inr (ProducerConsumer ''A'' True (Evaluate (IntImm 0)),
            initial_state\<lparr>logger :=
              Some [(''y'', Variable ''y''), (''y'', Add (Variable ''y'') (IntImm 2))]\<rparr>)"
  using slide_direction_by_monotonicity
    [OF example_select_y example_updates_pure, of unknown_oracles "Variable ''y.loop_min''"
       "Evaluate (IntImm 0)" initial_state]
  by (simp add: example_select_y example_updates_pure unknown_oracles_def example_oracles_def
                initial_state_def)
     (simp add: stage_A_fields)
text \<open>
  C2. Dimension selection is a three-way rule over the expanded bounds
  \<open>prefix.dim.min\<close> and \<open>prefix.dim.max\<close> of the stage's last definition. Where exactly
  one dimension has a bound that depends on the loop variable (the arguments split as
  \<open>pre @ a # post\<close>, only \<open>a\<close> dependent), that dimension is selected with its index and
  its expanded bounds. Where a second dimension depends on it too, the producer node is
  returned as it is, with the state untouched. Where none depends on it and the bounds of
  the last dimension are pure, the last dimension is selected. The bounds of the
  dimensions visited are in the scope (otherwise the source trips an assertion), and the
  first dependent dimension has a non-empty name: the source keeps "none selected yet" as
  the empty name, and the names of a stage's arguments are never empty.
\<close>

theorem dimension_selection_three_way:
  "(func_args f = pre @ a # post \<and>
    (\<forall>c\<in>set pre \<union> set post. dim_invariant sc (stage_prefix f) loop_var c) \<and>
    dim_bounds sc (stage_prefix f) a = Some (mn, mx) \<and>
    dim_depends sc (stage_prefix f) loop_var a
      \<longrightarrow> select_dim orc f loop_var sc = Inr (a, length pre, Some (mn, mx)))
   \<and>
   (func_args f = pre @ a # mid @ b # post \<and>
    (\<forall>c\<in>set pre \<union> set mid. dim_invariant sc (stage_prefix f) loop_var c) \<and>
    dim_depends sc (stage_prefix f) loop_var a \<and>
    dim_depends sc (stage_prefix f) loop_var b \<and> a \<noteq> []
      \<longrightarrow> visit_producer orc f loop_var loop_min sc body st
            = Inr (ProducerConsumer (func_name f) True body, st))
   \<and>
   (func_args f \<noteq> [] \<and>
    (\<forall>c\<in>set (func_args f). dim_invariant sc (stage_prefix f) loop_var c) \<and>
    dim_bounds sc (stage_prefix f) (last (func_args f)) = Some (mn, mx) \<and>
    is_pure orc mn \<and> is_pure orc mx
      \<longrightarrow> select_dim orc f loop_var sc
            = Inr (last (func_args f), length (func_args f) - 1, Some (mn, mx)))"
proof (intro conjI impI)
  assume "func_args f = pre @ a # post \<and>
    (\<forall>c\<in>set pre \<union> set post. dim_invariant sc (stage_prefix f) loop_var c) \<and>
    dim_bounds sc (stage_prefix f) a = Some (mn, mx) \<and>
    dim_depends sc (stage_prefix f) loop_var a"
  then show "select_dim orc f loop_var sc = Inr (a, length pre, Some (mn, mx))"
    using select_dim_exactly_one [of f pre a post sc loop_var mn mx orc] by blast
next
  assume h: "func_args f = pre @ a # mid @ b # post \<and>
    (\<forall>c\<in>set pre \<union> set mid. dim_invariant sc (stage_prefix f) loop_var c) \<and>
    dim_depends sc (stage_prefix f) loop_var a \<and>
    dim_depends sc (stage_prefix f) loop_var b \<and> a \<noteq> []"
  then obtain mn1 mx1 mn2 mx2 where
    "dim_bounds sc (stage_prefix f) a = Some (mn1, mx1)"
    "dim_bounds sc (stage_prefix f) b = Some (mn2, mx2)"
    by (auto simp: dim_depends_def split: option.splits)
  with h have "select_dim orc f loop_var sc = Inr ([], length pre, None)"
    using select_dim_more_than_one [of f pre a mid b post sc loop_var mn1 mx1 mn2 mx2 orc]
    by blast
  then show "visit_producer orc f loop_var loop_min sc body st
               = Inr (ProducerConsumer (func_name f) True body, st)"
    by (rule visit_producer_no_selection)
next
  assume "func_args f \<noteq> [] \<and>
    (\<forall>c\<in>set (func_args f). dim_invariant sc (stage_prefix f) loop_var c) \<and>
    dim_bounds sc (stage_prefix f) (last (func_args f)) = Some (mn, mx) \<and>
    is_pure orc mn \<and> is_pure orc mx"
  then show "select_dim orc f loop_var sc
               = Inr (last (func_args f), length (func_args f) - 1, Some (mn, mx))"
    using select_dim_none_depends [of f sc loop_var mn mx orc] by blast
qed

theorem dimension_selection_three_way_witness:
  "select_dim example_oracles stage_A ''y'' scope_A
     = Inr (''y'', 1, Some (Variable ''y'', Add (Variable ''y'') (IntImm 2)))
   \<and> visit_producer example_oracles stage_A ''y'' (Variable ''y.loop_min'')
       (scope_A(''A.s0.x.max'' \<mapsto> Variable ''y'')) (Evaluate (IntImm 0)) initial_state
     = Inr (ProducerConsumer ''A'' True (Evaluate (IntImm 0)), initial_state)
   \<and> select_dim example_oracles stage_A ''z'' scope_A
     = Inr (''y'', 1, Some (Variable ''y'', Add (Variable ''y'') (IntImm 2)))"
proof (intro conjI)
  show "select_dim example_oracles stage_A ''y'' scope_A
     = Inr (''y'', 1, Some (Variable ''y'', Add (Variable ''y'') (IntImm 2)))"
    using dimension_selection_three_way
      [where f = stage_A and pre = "[''x'']" and a = "''y''" and post = "[]"
         and sc = scope_A and loop_var = "''y''" and orc = example_oracles
         and mn = "Variable ''y''" and mx = "Add (Variable ''y'') (IntImm 2)"]
    by (simp add: example_prefix dim_invariant_def dim_depends_def dim_bounds_def scope_A_def)
       (simp add: stage_A_fields)
next
  show "visit_producer example_oracles stage_A ''y'' (Variable ''y.loop_min'')
       (scope_A(''A.s0.x.max'' \<mapsto> Variable ''y'')) (Evaluate (IntImm 0)) initial_state
     = Inr (ProducerConsumer ''A'' True (Evaluate (IntImm 0)), initial_state)"
    using dimension_selection_three_way
      [where f = stage_A and pre = "[]" and a = "''x''" and mid = "[]" and b = "''y''"
         and post = "[]" and sc = "scope_A(''A.s0.x.max'' \<mapsto> Variable ''y'')"
         and loop_var = "''y''" and orc = example_oracles
         and loop_min = "Variable ''y.loop_min''" and body = "Evaluate (IntImm 0)"
         and st = initial_state]
    by (simp add: example_prefix dim_invariant_def dim_depends_def dim_bounds_def scope_A_def)
       (simp add: stage_A_fields)
next
  show "select_dim example_oracles stage_A ''z'' scope_A
     = Inr (''y'', 1, Some (Variable ''y'', Add (Variable ''y'') (IntImm 2)))"
    using dimension_selection_three_way
      [where f = stage_A and sc = scope_A and loop_var = "''z''" and orc = example_oracles
         and mn = "Variable ''y''" and mx = "Add (Variable ''y'') (IntImm 2)"]
    by (simp add: example_prefix dim_invariant_def dim_depends_def dim_bounds_def scope_A_def
                  example_oracles_def)
       (simp add: stage_A_fields)
qed



text \<open>
  C4. With \<open>prev_max\<close> the maximum required with the loop variable replaced by the loop
  variable minus one, plus one, and \<open>prev_min\<close> the minimum required with the same
  replacement, minus one: if the prover shows \<open>min_required \<ge> prev_max\<close> or
  \<open>max_required \<le> prev_min\<close>, the producer node is returned as it is. Neither the
  replacement map nor the new loop minimum changes; the logger may have received the
  records of the direction decision, which comes first.
\<close>

theorem no_overlap_returns_unchanged:
  assumes sel: "select_dim orc f loop_var sc = Inr (dim, dim_idx, Some (min_required, max_required))"
    and pure: "updates_pure (func_updates f) dim dim_idx = Inr pure"
    and prev_max: "prev_max =
           Add (substitute1 loop_var (Sub (Variable loop_var) (IntImm 1)) max_required) (IntImm 1)"
    and prev_min: "prev_min =
           Sub (substitute1 loop_var (Sub (Variable loop_var) (IntImm 1)) min_required) (IntImm 1)"
    and proved: "can_prove orc (GE min_required prev_max) \<or>
                 can_prove orc (LE max_required prev_min)"
  shows "\<exists>lg. visit_producer orc f loop_var loop_min sc body st
                = Inr (ProducerConsumer (func_name f) True body, st\<lparr>logger := lg\<rparr>)"
proof (cases pure)
  case False
  with visit_producer_impure [OF sel] pure
  have "visit_producer orc f loop_var loop_min sc body st
          = Inr (ProducerConsumer (func_name f) True body, st\<lparr>logger := logger st\<rparr>)"
    by simp
  then show ?thesis ..
next
  case True
  from proved prev_max prev_min have "no_overlap orc loop_var min_required max_required"
    by (simp add: no_overlap_def prev_max_plus_one_def prev_min_minus_one_def)
  with True pure have "visit_producer orc f loop_var loop_min sc body st
          = Inr (ProducerConsumer (func_name f) True body,
                 report_monotonic orc loop_var min_required max_required st)"
    by (simp add: visit_producer_selected [OF sel])
  then show ?thesis
    by (subst (asm) report_monotonic_eq) blast
qed

theorem no_overlap_returns_unchanged_witness:
  "select_dim proving_oracles stage_A ''y'' scope_A
     = Inr (''y'', 1, Some (Variable ''y'', Add (Variable ''y'') (IntImm 2)))
   \<and> updates_pure (func_updates stage_A) ''y'' 1 = Inr True
   \<and> can_prove proving_oracles
        (GE (Variable ''y'')
           (Add (substitute1 ''y'' (Sub (Variable ''y'') (IntImm 1)) (Add (Variable ''y'') (IntImm 2)))
              (IntImm 1)))
   \<and> (\<exists>lg. visit_producer proving_oracles stage_A ''y'' (Variable ''y.loop_min'') scope_A
              (Evaluate (IntImm 0)) initial_state
            = Inr (ProducerConsumer ''A'' True (Evaluate (IntImm 0)), initial_state\<lparr>logger := lg\<rparr>))"
  using no_overlap_returns_unchanged
    [OF example_select_y example_updates_pure refl refl, of proving_oracles
       "Variable ''y.loop_min''" "Evaluate (IntImm 0)" initial_state]
  by (simp add: example_select_y example_updates_pure proving_oracles_def stage_A_fields)

text \<open>
  C5. Past the guards, with \<open>solve_result\<close> the solver's interval for the equation of the
  new loop start in the fresh variable: if it has an upper bound and its two ends are
  equal, the new loop minimum is the simplified point, or none when that equals the
  loop's own minimum, and the bound rewritten is \<open>.min := prev_max_plus_one\<close> for a slide
  up (the maximum stays \<open>max_required\<close>) or \<open>.max := prev_min_minus_one\<close> for a slide down
  (the minimum stays \<open>min_required\<close>). In every other case the new loop minimum is left as
  it was, and the bound rewritten is the select that yields the original bound when the
  loop variable is at most the loop minimum and otherwise the adjacent-iteration bound
  under \<open>likely_if_innermost\<close>. The node is returned whenever the box of the producer
  body has the dimension (or there is no update definition) and, for the exact solve, no
  new loop minimum was recorded before.
\<close>

theorem new_region_exact_or_guarded:
  assumes sel: "select_dim orc f loop_var sc = Inr (dim, dim_idx, Some (min_required, max_required))"
    and pure: "updates_pure (func_updates f) dim dim_idx = Inr True"
    and dir: "can_slide_up orc min_required loop_var \<or> can_slide_down orc max_required loop_var"
    and novl: "\<not> no_overlap orc loop_var min_required max_required"
    and up: "up = can_slide_up orc min_required loop_var"
    and name: "name = unique_name orc CHR ''x'' (name_count st)"
    and sr: "solve_result =
               solve_for_inner_interval orc
                 (new_loop_min_eq orc loop_var loop_min name min_required max_required up) name"
    and single: "single = (has_upper_bound solve_result \<and>
                           interval_min solve_result = interval_max solve_result)"
    and kmin: "kmin = stage_prefix f @ dim @ ''.min''"
    and kmax: "kmax = stage_prefix f @ dim @ ''.max''"
  shows
    "(((single \<and> new_loop_min st = None) \<or> \<not> single) \<and>
      (func_updates f = [] \<or> dim_idx < length (box_provided orc body (func_name f)))
        \<longrightarrow> (\<exists>s' st'. visit_producer orc f loop_var loop_min sc body st = Inr (s', st')))
     \<and>
     (\<forall>s' st'. visit_producer orc f loop_var loop_min sc body st = Inr (s', st') \<longrightarrow>
        (single \<longrightarrow>
           new_loop_min st'
             = (if simplify orc (interval_max solve_result) = loop_min then None
                else Some (simplify orc (interval_max solve_result)))
           \<and> (up \<longrightarrow> replacements st' kmin = Some (prev_max_plus_one loop_var max_required)
                    \<and> replacements st' kmax = replacements st kmax)
           \<and> (\<not> up \<longrightarrow> replacements st' kmax = Some (prev_min_minus_one loop_var min_required)
                    \<and> replacements st' kmin = replacements st kmin))
        \<and>
        (\<not> single \<longrightarrow>
           new_loop_min st' = new_loop_min st
           \<and> (up \<longrightarrow> replacements st' kmin
                        = Some (Select (LE (Variable loop_var) loop_min) min_required
                                  (likely_if_innermost (prev_max_plus_one loop_var max_required)))
                    \<and> replacements st' kmax = replacements st kmax)
           \<and> (\<not> up \<longrightarrow> replacements st' kmax
                        = Some (Select (LE (Variable loop_var) loop_min) max_required
                                  (likely_if_innermost (prev_min_minus_one loop_var min_required)))
                    \<and> replacements st' kmin = replacements st kmin)))"
proof -
  let ?st1 = "report_monotonic orc loop_var min_required max_required st"
  have visit: "visit_producer orc f loop_var loop_min sc body st =
      rewrite_bounds orc f loop_var loop_min body dim dim_idx min_required max_required up ?st1"
    unfolding up by (rule visit_producer_rewrites [OF sel pure dir novl])
  have sp: "single = single_point (solve_for_inner_interval orc
             (new_loop_min_eq orc loop_var loop_min (unique_name orc CHR ''x'' (name_count ?st1))
                min_required max_required up)
             (unique_name orc CHR ''x'' (name_count ?st1)))"
    by (simp add: single sr name single_point_def report_monotonic_fields)
  have srx: "solve_for_inner_interval orc
             (new_loop_min_eq orc loop_var loop_min (unique_name orc CHR ''x'' (name_count ?st1))
                min_required max_required up)
             (unique_name orc CHR ''x'' (name_count ?st1)) = solve_result"
    by (simp add: sr name report_monotonic_fields)
  show ?thesis
  proof (intro conjI allI impI)
    assume h: "((single \<and> new_loop_min st = None) \<or> \<not> single) \<and>
      (func_updates f = [] \<or> dim_idx < length (box_provided orc body (func_name f)))"
    have "\<exists>r. solve_new_region orc loop_var loop_min min_required max_required up ?st1 = Inr r"
    proof (cases single)
      case True
      with h have n: "new_loop_min ?st1 = None" by (simp add: report_monotonic_fields)
      from solve_new_region_single [OF True [unfolded sp] n] show ?thesis by blast
    next
      case False
      from solve_new_region_guarded [OF False [unfolded sp]] show ?thesis by blast
    qed
    then show "\<exists>s' st'. visit_producer orc f loop_var loop_min sc body st = Inr (s', st')"
      using h rewrite_bounds_returns unfolding visit by blast
  next
    fix s' st'
    assume res: "visit_producer orc f loop_var loop_min sc body st = Inr (s', st')"
    from res [unfolded visit] obtain new_min new_max st2 where
      solve: "solve_new_region orc loop_var loop_min min_required max_required up ?st1
                = Inr (new_min, new_max, st2)"
      and nlm: "new_loop_min st' = new_loop_min st2"
      and rmin: "replacements st' kmin = (if up then Some new_min else replacements st kmin)"
      and rmax: "replacements st' kmax = (if up then replacements st kmax else Some new_max)"
      unfolding kmin kmax
      by (rule rewrite_bounds_result) (simp add: report_monotonic_fields)
    { assume s: single
      have none: "new_loop_min ?st1 = None"
      proof (cases "new_loop_min ?st1")
        case None then show ?thesis .
      next
        case (Some e)
        from solve_new_region_assert [OF s [unfolded sp] Some] solve show ?thesis by simp
      qed
      from solve_new_region_single [OF s [unfolded sp] none] solve
      have "new_min = (if up then prev_max_plus_one loop_var max_required else min_required)"
        and "new_max = (if up then max_required else prev_min_minus_one loop_var min_required)"
        and "new_loop_min st2 = (if simplify orc (interval_max solve_result) = loop_min then None
                else Some (simplify orc (interval_max solve_result)))"
        by (auto simp: srx Let_def)
      with nlm rmin rmax show
        "new_loop_min st'
             = (if simplify orc (interval_max solve_result) = loop_min then None
                else Some (simplify orc (interval_max solve_result)))"
        and "up \<Longrightarrow> replacements st' kmin = Some (prev_max_plus_one loop_var max_required)"
        and "up \<Longrightarrow> replacements st' kmax = replacements st kmax"
        and "\<not> up \<Longrightarrow> replacements st' kmax = Some (prev_min_minus_one loop_var min_required)"
        and "\<not> up \<Longrightarrow> replacements st' kmin = replacements st kmin"
        by simp_all }
    { assume s: "\<not> single"
      from solve_new_region_guarded [OF s [unfolded sp]] solve
      have "new_min = (if up then Select (LE (Variable loop_var) loop_min) min_required
                             (likely_if_innermost (prev_max_plus_one loop_var max_required))
                else min_required)"
        and "new_max = (if up then max_required
                else Select (LE (Variable loop_var) loop_min) max_required
                       (likely_if_innermost (prev_min_minus_one loop_var min_required)))"
        and "new_loop_min st2 = new_loop_min st"
        by (auto simp: report_monotonic_fields)
      with nlm rmin rmax show "new_loop_min st' = new_loop_min st"
        and "up \<Longrightarrow> replacements st' kmin
                        = Some (Select (LE (Variable loop_var) loop_min) min_required
                                  (likely_if_innermost (prev_max_plus_one loop_var max_required)))"
        and "up \<Longrightarrow> replacements st' kmax = replacements st kmax"
        and "\<not> up \<Longrightarrow> replacements st' kmax
                        = Some (Select (LE (Variable loop_var) loop_min) max_required
                                  (likely_if_innermost (prev_min_minus_one loop_var min_required)))"
        and "\<not> up \<Longrightarrow> replacements st' kmin = replacements st kmin"
        by simp_all }
  qed
qed


theorem new_region_exact_or_guarded_witness:
  "(\<exists>s' st'. visit_producer solving_oracles stage_A ''y'' (Variable ''y.loop_min'') scope_A
               (Evaluate (IntImm 0)) initial_state = Inr (s', st')
      \<and> new_loop_min st' = Some (Sub (Variable ''y.loop_min'') (IntImm 2))
      \<and> replacements st' ''A.s0.y.min''
          = Some (Add (Add (Sub (Variable ''y'') (IntImm 1)) (IntImm 2)) (IntImm 1)))
   \<and>
   (\<exists>s' st'. visit_producer example_oracles stage_A ''y'' (Variable ''y.loop_min'') scope_A
               (Evaluate (IntImm 0)) initial_state = Inr (s', st')
      \<and> new_loop_min st' = None
      \<and> replacements st' ''A.s0.y.min''
          = Some (Select (LE (Variable ''y'') (Variable ''y.loop_min'')) (Variable ''y'')
                    (Call ''likely_if_innermost''
                       [Add (Add (Sub (Variable ''y'') (IntImm 1)) (IntImm 2)) (IntImm 1)])))"
proof (intro conjI)
  note t = new_region_exact_or_guarded
    [OF example_select_y example_updates_pure disjI1 [OF example_direction(2)] example_direction(4)
        refl refl refl refl refl refl,
     of "Variable ''y.loop_min''" initial_state "Evaluate (IntImm 0)"]
  have single: "has_upper_bound (solve_for_inner_interval solving_oracles e v)"
    "interval_min (solve_for_inner_interval solving_oracles e v)
       = Sub (Variable ''y.loop_min'') (IntImm 2)"
    "interval_max (solve_for_inner_interval solving_oracles e v)
       = Sub (Variable ''y.loop_min'') (IntImm 2)" for e v
    by (simp_all add: solving_oracles_def has_upper_bound_def pos_inf_def)
  have simp_id: "simplify solving_oracles e = e" for e
    by (simp add: solving_oracles_def example_oracles_def)
  from t obtain s' st' where
    r: "visit_producer solving_oracles stage_A ''y'' (Variable ''y.loop_min'') scope_A
          (Evaluate (IntImm 0)) initial_state = Inr (s', st')"
    by (auto simp: single initial_state_def stage_A_fields)
  from t r have "new_loop_min st' = Some (Sub (Variable ''y.loop_min'') (IntImm 2))
      \<and> replacements st' ''A.s0.y.min''
          = Some (Add (Add (Sub (Variable ''y'') (IntImm 1)) (IntImm 2)) (IntImm 1))"
    by (simp add: single simp_id example_direction example_prefix prev_max_plus_one_def
                  substitute1_def)
  with r show "\<exists>s' st'. visit_producer solving_oracles stage_A ''y'' (Variable ''y.loop_min'') scope_A
               (Evaluate (IntImm 0)) initial_state = Inr (s', st')
      \<and> new_loop_min st' = Some (Sub (Variable ''y.loop_min'') (IntImm 2))
      \<and> replacements st' ''A.s0.y.min''
          = Some (Add (Add (Sub (Variable ''y'') (IntImm 1)) (IntImm 2)) (IntImm 1))"
    by blast
next
  note t = new_region_exact_or_guarded
    [OF example_select_y example_updates_pure disjI1 [OF example_direction(1)] example_direction(3)
        refl refl refl refl refl refl,
     of "Variable ''y.loop_min''" initial_state "Evaluate (IntImm 0)"]
  have unbounded: "\<not> has_upper_bound (solve_for_inner_interval example_oracles e v)" for e v
    by (simp add: example_oracles_def has_upper_bound_def)
  from t obtain s' st' where
    r: "visit_producer example_oracles stage_A ''y'' (Variable ''y.loop_min'') scope_A
          (Evaluate (IntImm 0)) initial_state = Inr (s', st')"
    by (auto simp: unbounded stage_A_fields)
  from t r have "new_loop_min st' = None
      \<and> replacements st' ''A.s0.y.min''
          = Some (Select (LE (Variable ''y'') (Variable ''y.loop_min'')) (Variable ''y'')
                    (Call ''likely_if_innermost''
                       [Add (Add (Sub (Variable ''y'') (IntImm 1)) (IntImm 2)) (IntImm 1)]))"
    by (simp add: unbounded example_direction example_prefix prev_max_plus_one_def
                  substitute1_def likely_if_innermost_def initial_state_def)
  with r show "\<exists>s' st'. visit_producer example_oracles stage_A ''y'' (Variable ''y.loop_min'') scope_A
               (Evaluate (IntImm 0)) initial_state = Inr (s', st')
      \<and> new_loop_min st' = None
      \<and> replacements st' ''A.s0.y.min''
          = Some (Select (LE (Variable ''y'') (Variable ''y.loop_min'')) (Variable ''y'')
                    (Call ''likely_if_innermost''
                       [Add (Add (Sub (Variable ''y'') (IntImm 1)) (IntImm 2)) (IntImm 1)]))"
    by blast
qed

text \<open>
  C10. Once a new loop minimum is recorded in the slider, a producer node whose solve
  yields a single point again does not overwrite it: the assertion
  \<open>internal_assert(!new_loop_min.defined())\<close> fails and the pass ends with an internal
  error. And whatever statement the slider then traverses, if it returns at all the
  recorded minimum is still the one recorded first, so one run of the slider adopts at
  most one.
\<close>

theorem second_exact_solve_asserts:
  assumes recorded: "new_loop_min st = Some earlier"
  shows
    "(select_dim orc f loop_var sc = Inr (dim, dim_idx, Some (min_required, max_required)) \<and>
      updates_pure (func_updates f) dim dim_idx = Inr True \<and>
      (can_slide_up orc min_required loop_var \<or> can_slide_down orc max_required loop_var) \<and>
      \<not> no_overlap orc loop_var min_required max_required \<and>
      (let name = unique_name orc CHR ''x'' (name_count st);
           solve_result =
             solve_for_inner_interval orc
               (new_loop_min_eq orc loop_var loop_min name min_required max_required
                  (can_slide_up orc min_required loop_var)) name
       in has_upper_bound solve_result \<and> interval_min solve_result = interval_max solve_result)
        \<longrightarrow> visit_producer orc f loop_var loop_min sc body st = Inl Internal_assert)
     \<and>
     (\<forall>sc' s s' st'.
        sliding_window_on_function_and_loop orc f loop_var loop_min sc' s st = Inr (s', st')
          \<longrightarrow> new_loop_min st' = Some earlier)"
proof (intro conjI impI allI)
  assume h: "select_dim orc f loop_var sc = Inr (dim, dim_idx, Some (min_required, max_required)) \<and>
      updates_pure (func_updates f) dim dim_idx = Inr True \<and>
      (can_slide_up orc min_required loop_var \<or> can_slide_down orc max_required loop_var) \<and>
      \<not> no_overlap orc loop_var min_required max_required \<and>
      (let name = unique_name orc CHR ''x'' (name_count st);
           solve_result =
             solve_for_inner_interval orc
               (new_loop_min_eq orc loop_var loop_min name min_required max_required
                  (can_slide_up orc min_required loop_var)) name
       in has_upper_bound solve_result \<and> interval_min solve_result = interval_max solve_result)"
  let ?st1 = "report_monotonic orc loop_var min_required max_required st"
  from h have visit: "visit_producer orc f loop_var loop_min sc body st =
      rewrite_bounds orc f loop_var loop_min body dim dim_idx min_required max_required
        (can_slide_up orc min_required loop_var) ?st1"
    by (intro visit_producer_rewrites) simp_all
  from h have "single_point (solve_for_inner_interval orc
             (new_loop_min_eq orc loop_var loop_min (unique_name orc CHR ''x'' (name_count ?st1))
                min_required max_required (can_slide_up orc min_required loop_var))
             (unique_name orc CHR ''x'' (name_count ?st1)))"
    by (simp add: single_point_def report_monotonic_fields Let_def)
  moreover from recorded have "new_loop_min ?st1 = Some earlier"
    by (simp add: report_monotonic_fields)
  ultimately have "solve_new_region orc loop_var loop_min min_required max_required
        (can_slide_up orc min_required loop_var) ?st1 = Inl Internal_assert"
    by (rule solve_new_region_assert)
  then show "visit_producer orc f loop_var loop_min sc body st = Inl Internal_assert"
    unfolding visit by (rule rewrite_bounds_error)
next
  fix sc' s s' st'
  assume "sliding_window_on_function_and_loop orc f loop_var loop_min sc' s st = Inr (s', st')"
  then show "new_loop_min st' = Some earlier"
    using recorded by (rule slider_keeps_new_loop_min)
qed


theorem second_exact_solve_asserts_witness:
  "new_loop_min (initial_state\<lparr>new_loop_min := Some (IntImm 7)\<rparr>) = Some (IntImm 7)
   \<and> visit_producer solving_oracles stage_A ''y'' (Variable ''y.loop_min'') scope_A
        (Evaluate (IntImm 0)) (initial_state\<lparr>new_loop_min := Some (IntImm 7)\<rparr>)
      = Inl Internal_assert
   \<and> new_loop_min (snd (projr (sliding_window_on_function_and_loop solving_oracles stage_A ''y''
        (Variable ''y.loop_min'') scope_A
        (ProducerConsumer ''B'' False (Evaluate (IntImm 0)))
        (initial_state\<lparr>new_loop_min := Some (IntImm 7)\<rparr>)))) = Some (IntImm 7)"
proof -
  let ?st = "initial_state\<lparr>new_loop_min := Some (IntImm 7)\<rparr>"
  have rec: "new_loop_min ?st = Some (IntImm 7)" by simp
  note t = second_exact_solve_asserts [OF rec, where orc = solving_oracles and f = stage_A
    and loop_var = "''y''" and sc = scope_A and dim = "''y''" and dim_idx = 1
    and min_required = "Variable ''y''" and max_required = "Add (Variable ''y'') (IntImm 2)"
    and loop_min = "Variable ''y.loop_min''" and body = "Evaluate (IntImm 0)"]
  have single: "has_upper_bound (solve_for_inner_interval solving_oracles e v)"
    "interval_min (solve_for_inner_interval solving_oracles e v)
       = interval_max (solve_for_inner_interval solving_oracles e v)" for e v
    by (simp_all add: solving_oracles_def has_upper_bound_def pos_inf_def)
  from t [THEN conjunct1]
  have a: "visit_producer solving_oracles stage_A ''y'' (Variable ''y.loop_min'') scope_A
        (Evaluate (IntImm 0)) ?st = Inl Internal_assert"
    by (simp add: example_select_y example_updates_pure example_direction single Let_def)
  have run: "sliding_window_on_function_and_loop solving_oracles stage_A ''y''
        (Variable ''y.loop_min'') scope_A
        (ProducerConsumer ''B'' False (Evaluate (IntImm 0))) ?st
      = Inr (ProducerConsumer ''B'' False
               (IfThenElse (warmup_guard ''y'') (Evaluate (IntImm 0)) None), ?st)"
    by (simp add: stage_A_fields)
  from t [THEN conjunct2, rule_format, OF run]
  have b: "new_loop_min (snd (projr (sliding_window_on_function_and_loop solving_oracles
        stage_A ''y'' (Variable ''y.loop_min'') scope_A
        (ProducerConsumer ''B'' False (Evaluate (IntImm 0))) ?st))) = Some (IntImm 7)"
    by (simp add: run)
  from rec a b show ?thesis by blast
qed

text \<open>
  C7, as the code has it. A consumer node that the slider visits while a new loop minimum
  is already recorded, and in which no producer of the sliding stage occurs, comes back as
  a consumer node of the same name whose body is a conditional without else branch: the
  condition is \<open>likely_if_innermost(loop variable \<ge> loop variable.loop_min.orig)\<close> and
  the branch is the mutated body. The conditional sits inside the consumer node, so
  whatever encloses the node stays outside the guard.
\<close>

theorem consumer_wrapped_in_warmup_guard:
  assumes adopted: "new_loop_min st = Some warmup_min"
    and no_producer: "\<not> find_produce (ProducerConsumer n False body) (func_name f)"
  shows "sliding_window_on_function_and_loop orc f loop_var loop_min sc
           (ProducerConsumer n False body) st
         = (case sliding_window_on_function_and_loop orc f loop_var loop_min sc body st of
              Inl e \<Rightarrow> Inl e
            | Inr (body', st') \<Rightarrow>
                Inr (ProducerConsumer n False
                       (IfThenElse
                          (Call ''likely_if_innermost''
                             [GE (Variable loop_var) (Variable (loop_var @ ''.loop_min.orig''))])
                          body' None),
                     st'))"
  using assms by (simp add: warmup_guard_def likely_if_innermost_def split: sum.split)

theorem consumer_wrapped_in_warmup_guard_witness:
  "new_loop_min slid_state = Some (Sub (Variable ''y.loop_min'') (IntImm 2))
   \<and> \<not> find_produce (ProducerConsumer ''A'' False (Evaluate (Variable ''y''))) (func_name stage_A)
   \<and> sliding_window_on_function_and_loop solving_oracles stage_A ''y'' (Variable ''y.loop_min'')
        bounds_scope (ProducerConsumer ''A'' False (Evaluate (Variable ''y''))) slid_state
      = Inr (ProducerConsumer ''A'' False
               (IfThenElse
                  (Call ''likely_if_innermost'' [GE (Variable ''y'') (Variable ''y.loop_min.orig'')])
                  (Evaluate (Variable ''y'')) None),
             slid_state)"
proof -
  have a: "new_loop_min slid_state = Some (Sub (Variable ''y.loop_min'') (IntImm 2))"
    by (simp add: slid_state_def)
  have b: "\<not> find_produce (ProducerConsumer ''A'' False (Evaluate (Variable ''y''))) (func_name stage_A)"
    by simp
  from consumer_wrapped_in_warmup_guard [OF a b, of solving_oracles "''y''"
         "Variable ''y.loop_min''" bounds_scope]
  have "sliding_window_on_function_and_loop solving_oracles stage_A ''y'' (Variable ''y.loop_min'')
        bounds_scope (ProducerConsumer ''A'' False (Evaluate (Variable ''y''))) slid_state
      = Inr (ProducerConsumer ''A'' False
               (IfThenElse
                  (Call ''likely_if_innermost'' [GE (Variable ''y'') (Variable ''y.loop_min.orig'')])
                  (Evaluate (Variable ''y'')) None),
             slid_state)"
    by simp
  with a b show ?thesis by blast
qed

text \<open>
  C7, as the claim has it, speaks of every consumer node without a producer of the stage
  once a new loop minimum has been adopted. Two kinds of consumer come back without the
  guard although the run of the slider ends with a new loop minimum: one that the slider
  visits before the producer that adopts the minimum, and one inside a loop that the
  slider does not enter because the loop's bounds depend on the loop variable.
\<close>

theorem consumer_not_always_wrapped:
  "\<not> find_produce consume_B (func_name stage_A)
   \<and> sliding_window_on_function_and_loop solving_oracles stage_A ''y'' (Variable ''y.loop_min'')
       bounds_scope (Block consume_B produce_A) fresh_state
     = Inr (Block consume_B produce_A, slid_state)
   \<and> sliding_window_on_function_and_loop solving_oracles stage_A ''y'' (Variable ''y.loop_min'')
       bounds_scope (Block produce_A (dependent_loop consume_B)) fresh_state
     = Inr (Block produce_A (dependent_loop consume_B), slid_state)
   \<and> new_loop_min slid_state = Some (Sub (Variable ''y.loop_min'') (IntImm 2))"
proof (intro conjI)
  show "\<not> find_produce consume_B (func_name stage_A)"
    by (simp add: consume_B_def)
  have fresh: "new_loop_min fresh_state = None" by (simp add: fresh_state_def)
  show "sliding_window_on_function_and_loop solving_oracles stage_A ''y'' (Variable ''y.loop_min'')
       bounds_scope (Block consume_B produce_A) fresh_state
     = Inr (Block consume_B produce_A, slid_state)"
    using example_producer_run
    by (simp add: consume_B_def produce_A_def stage_A_fields fresh)
  show "sliding_window_on_function_and_loop solving_oracles stage_A ''y'' (Variable ''y.loop_min'')
       bounds_scope (Block produce_A (dependent_loop consume_B)) fresh_state
     = Inr (Block produce_A (dependent_loop consume_B), slid_state)"
    using example_producer_run
    by (simp add: consume_B_def produce_A_def dependent_loop_def stage_A_fields
                  solving_oracles_facts(2,3) bounds_scope_def)
  show "new_loop_min slid_state = Some (Sub (Variable ''y.loop_min'') (IntImm 2))"
    by (simp add: slid_state_def)
qed

section \<open>The per-stage driver: renaming and loop types\<close>

text \<open>
  C6. At a serial or unrolled loop \<open>n\<close> whose minimum is the variable \<open>m\<close>, when the slider
  has set a new loop minimum: the loop is renamed \<open>n.n\<close>; the body the slider returned has
  \<open>n\<close>, \<open>n.loop_extent\<close> and \<open>n.loop_min\<close> replaced by \<open>n.n\<close>, \<open>n.n.loop_extent\<close> and
  \<open>n.n.loop_min\<close> before the driver goes on into it; the new loop runs from \<open>n.n.loop_min\<close>
  over \<open>n.n.loop_extent\<close>; and it is wrapped, outermost first, in the bindings of
  \<open>n.n.loop_min\<close> (the new minimum), \<open>n.n.loop_min.orig\<close> (bound to \<open>n.n.loop_min\<close>),
  \<open>n.n.loop_extent\<close> (loop maximum - \<open>n.n.loop_min\<close> + 1) and \<open>n.n.loop_max\<close>
  (\<open>n.n.loop_min + n.n.loop_extent - 1\<close>). The loop maximum is the variable named as
  \<open>m\<close> with its last two characters replaced by \<open>ax\<close>, which is \<open>n.loop_max\<close> when \<open>m\<close>
  is \<open>n.loop_min\<close>. Under these bindings, for every value \<open>v\<close> of the new minimum and every
  environment, the extent evaluates to the loop maximum - \<open>v\<close> + 1 and
  \<open>n.n.loop_min + n.n.loop_extent - 1\<close> evaluates to the value of the loop maximum, in
  32-bit arithmetic.
\<close>

theorem slid_loop_rewritten:
  assumes ft: "ft = Serial \<or> ft = Unrolled"
    and slide: "sliding_window_on_function_and_loop orc f n (Variable m) Map.empty body
           \<lparr>logger = logger g, name_count = name_count g,
            replacements = Map.empty, new_loop_min = None\<rparr> = Inr (slid_body, st)"
    and changed: "new_loop_min st = Some new_min"
    and rest: "sliding_window_on_function orc f
           (substitute_stmt
              [n \<mapsto> Variable (n @ ''.n''),
               n @ ''.loop_extent'' \<mapsto> Variable (n @ ''.n.loop_extent''),
               n @ ''.loop_min'' \<mapsto> Variable (n @ ''.n.loop_min'')] slid_body)
           \<lparr>logger = logger st, name_count = name_count st\<rparr> = Inr (new_body, g')"
  shows
    "sliding_window_on_function orc f (For n (Variable m) ex ft dev body) g
       = Inr (LetStmt (n @ ''.n.loop_min'') new_min
               (LetStmt (n @ ''.n.loop_min.orig'') (Variable (n @ ''.n.loop_min''))
                 (LetStmt (n @ ''.n.loop_extent'')
                    (Add (Sub (Variable (loop_max_name_of m)) (Variable (n @ ''.n.loop_min'')))
                         (IntImm 1))
                   (LetStmt (n @ ''.n.loop_max'')
                      (Sub (Add (Variable (n @ ''.n.loop_min'')) (Variable (n @ ''.n.loop_extent'')))
                           (IntImm 1))
                      (For (n @ ''.n'') (Variable (n @ ''.n.loop_min''))
                         (Variable (n @ ''.n.loop_extent'')) ft dev new_body)))),
              g')
     \<and> loop_max_name_of (n @ ''.loop_min'') = n @ ''.loop_max''
     \<and> (\<forall>env v.
          eval (env(n @ ''.n.loop_min'' := v, n @ ''.n.loop_min.orig'' := v))
            (Add (Sub (Variable (loop_max_name_of m)) (Variable (n @ ''.n.loop_min''))) (IntImm 1))
            = Some (env (loop_max_name_of m) - v + 1)
          \<and>
          eval (env(n @ ''.n.loop_min'' := v, n @ ''.n.loop_min.orig'' := v,
                    n @ ''.n.loop_extent'' := env (loop_max_name_of m) - v + 1))
            (Sub (Add (Variable (n @ ''.n.loop_min'')) (Variable (n @ ''.n.loop_extent''))) (IntImm 1))
            = Some (env (loop_max_name_of m)))"
proof (intro conjI allI)
  show "sliding_window_on_function orc f (For n (Variable m) ex ft dev body) g
       = Inr (LetStmt (n @ ''.n.loop_min'') new_min
               (LetStmt (n @ ''.n.loop_min.orig'') (Variable (n @ ''.n.loop_min''))
                 (LetStmt (n @ ''.n.loop_extent'')
                    (Add (Sub (Variable (loop_max_name_of m)) (Variable (n @ ''.n.loop_min'')))
                         (IntImm 1))
                   (LetStmt (n @ ''.n.loop_max'')
                      (Sub (Add (Variable (n @ ''.n.loop_min'')) (Variable (n @ ''.n.loop_extent'')))
                           (IntImm 1))
                      (For (n @ ''.n'') (Variable (n @ ''.n.loop_min''))
                         (Variable (n @ ''.n.loop_extent'')) ft dev new_body)))),
              g')"
    by (rule driver_slid_loop [OF ft slide changed rest])
  show "loop_max_name_of (n @ ''.loop_min'') = n @ ''.loop_max''"
    by (rule loop_max_name_of_loop_min)
next
  fix env v
  show "eval (env(n @ ''.n.loop_min'' := v, n @ ''.n.loop_min.orig'' := v))
            (Add (Sub (Variable (loop_max_name_of m)) (Variable (n @ ''.n.loop_min''))) (IntImm 1))
            = Some (env (loop_max_name_of m) - v + 1)"
    by (rule new_loop_bounds_value)
  show "eval (env(n @ ''.n.loop_min'' := v, n @ ''.n.loop_min.orig'' := v,
                    n @ ''.n.loop_extent'' := env (loop_max_name_of m) - v + 1))
            (Sub (Add (Variable (n @ ''.n.loop_min'')) (Variable (n @ ''.n.loop_extent''))) (IntImm 1))
            = Some (env (loop_max_name_of m))"
    by (rule new_loop_bounds_value)
qed


theorem slid_loop_rewritten_witness:
  "sliding_window_on_function solving_oracles stage_A (serial_loop (with_bounds produce_consume))
     no_globals
     = Inr (slid_serial_loop (with_renamed_bounds renamed_produce_consume),
            \<lparr>logger = None, name_count = 1\<rparr>)
   \<and> eval ((\<lambda>n. 0)(''y.loop_max'' := 9, ''y.n.loop_min'' := - 2, ''y.n.loop_min.orig'' := - 2,
                    ''y.n.loop_extent'' := 9 - (- 2) + 1))
        (Sub (Add (Variable ''y.n.loop_min'') (Variable ''y.n.loop_extent'')) (IntImm 1))
     = Some 9"
proof -
  have slide: "sliding_window_on_function_and_loop solving_oracles stage_A ''y''
      (Variable ''y.loop_min'') Map.empty (with_bounds produce_consume)
      \<lparr>logger = logger no_globals, name_count = name_count no_globals,
       replacements = Map.empty, new_loop_min = None\<rparr>
      = Inr (with_slid_bounds slid_produce_consume, slid_state\<lparr>replacements := Map.empty\<rparr>)"
    unfolding example_fresh by (rule example_slider_run)
  have changed: "new_loop_min (slid_state\<lparr>replacements := Map.empty\<rparr>)
      = Some (Sub (Variable ''y.loop_min'') (IntImm 2))"
    by (simp add: slid_state_def)
  have rest: "sliding_window_on_function solving_oracles stage_A
       (substitute_stmt
          [''y'' \<mapsto> Variable (''y'' @ ''.n''),
           ''y'' @ ''.loop_extent'' \<mapsto> Variable (''y'' @ ''.n.loop_extent''),
           ''y'' @ ''.loop_min'' \<mapsto> Variable (''y'' @ ''.n.loop_min'')]
          (with_slid_bounds slid_produce_consume))
       \<lparr>logger = logger (slid_state\<lparr>replacements := Map.empty\<rparr>),
        name_count = name_count (slid_state\<lparr>replacements := Map.empty\<rparr>)\<rparr>
     = Inr (with_renamed_bounds renamed_produce_consume, \<lparr>logger = None, name_count = 1\<rparr>)"
    using example_renaming(1) example_driver_inner
    by (simp add: renames_def slid_state_def)
  note t = slid_loop_rewritten [where ft = Serial and ex = "Variable ''y.loop_extent''"
      and dev = DeviceAPI_None, OF _ slide changed rest]
  have max_name: "loop_max_name_of ''y.loop_min'' = ''y.loop_max''"
    by (simp add: loop_max_name_of_def)
  from t have a: "sliding_window_on_function solving_oracles stage_A
        (serial_loop (with_bounds produce_consume)) no_globals
     = Inr (slid_serial_loop (with_renamed_bounds renamed_produce_consume),
            \<lparr>logger = None, name_count = 1\<rparr>)"
    by (simp add: serial_loop_def slid_serial_loop_def max_name)
  from t have "eval (((\<lambda>n. 0)(''y.loop_max'' := 9))(''y'' @ ''.n.loop_min'' := - 2,
                    ''y'' @ ''.n.loop_min.orig'' := - 2,
                    ''y'' @ ''.n.loop_extent'' :=
                       ((\<lambda>n. 0)(''y.loop_max'' := 9)) (loop_max_name_of ''y.loop_min'') - (- 2) + 1))
        (Sub (Add (Variable (''y'' @ ''.n.loop_min'')) (Variable (''y'' @ ''.n.loop_extent'')))
           (IntImm 1))
     = Some (((\<lambda>n. 0)(''y.loop_max'' := 9)) (loop_max_name_of ''y.loop_min''))"
    by blast
  then have b: "eval ((\<lambda>n. 0)(''y.loop_max'' := 9, ''y.n.loop_min'' := - 2,
                    ''y.n.loop_min.orig'' := - 2, ''y.n.loop_extent'' := 9 - (- 2) + 1))
        (Sub (Add (Variable ''y.n.loop_min'') (Variable ''y.n.loop_extent'')) (IntImm 1))
     = Some 9"
    by (simp add: max_name del: eval.simps)
  from a b show ?thesis by blast
qed

text \<open>
  C8. At a loop that is neither serial nor unrolled the driver starts no slider: the first
  half of its loop case hands back the body, the name and no new minimum, and the loop
  comes back with its name, minimum, extent, type and device, around the body the driver
  returns for the loop's body. The slider of an enclosing loop does not look at the type
  of an inner loop: it treats the loop as it would a serial one with the same name, bounds
  and body.
\<close>

theorem non_serial_loop_not_slid:
  assumes "ft \<noteq> Serial" and "ft \<noteq> Unrolled"
  shows
    "slide_over_loop orc f n mn ft body g = Inr (body, n, None, g)
     \<and> sliding_window_on_function orc f (For n mn ex ft dev body) g
         = (case sliding_window_on_function orc f body g of
              Inl e \<Rightarrow> Inl e
            | Inr (body', g') \<Rightarrow> Inr (For n mn ex ft dev body', g'))
     \<and> (\<forall>loop_var loop_min sc st body' st'.
          (sliding_window_on_function_and_loop orc f loop_var loop_min sc
             (For n mn ex ft dev body) st = Inr (For n mn ex ft dev body', st'))
          = (sliding_window_on_function_and_loop orc f loop_var loop_min sc
               (For n mn ex Serial dev body) st = Inr (For n mn ex Serial dev body', st')))"
proof (intro conjI allI)
  show "slide_over_loop orc f n mn ft body g = Inr (body, n, None, g)"
    using assms by (rule slide_over_loop_not_serial)
  then show "sliding_window_on_function orc f (For n mn ex ft dev body) g
         = (case sliding_window_on_function orc f body g of
              Inl e \<Rightarrow> Inl e
            | Inr (body', g') \<Rightarrow> Inr (For n mn ex ft dev body', g'))"
    by (simp split: sum.split)
next
  fix loop_var loop_min sc st body' st'
  show "(sliding_window_on_function_and_loop orc f loop_var loop_min sc
             (For n mn ex ft dev body) st = Inr (For n mn ex ft dev body', st'))
          = (sliding_window_on_function_and_loop orc f loop_var loop_min sc
               (For n mn ex Serial dev body) st = Inr (For n mn ex Serial dev body', st'))"
    by (rule slider_for_type_irrelevant)
qed


theorem non_serial_loop_not_slid_witness:
  "slide_over_loop solving_oracles stage_A ''x'' (Variable ''x.loop_min'') Vectorized
     renamed_produce_consume \<lparr>logger = None, name_count = 1\<rparr>
     = Inr (renamed_produce_consume, ''x'', None, \<lparr>logger = None, name_count = 1\<rparr>)
   \<and> sliding_window_on_function solving_oracles stage_A (vector_loop renamed_produce_consume)
       \<lparr>logger = None, name_count = 1\<rparr>
     = Inr (vector_loop renamed_produce_consume, \<lparr>logger = None, name_count = 1\<rparr>)
   \<and> sliding_window_on_function solving_oracles stage_A
       (serial_loop (with_bounds (vector_loop produce_consume))) no_globals
     = Inr (slid_serial_loop (with_renamed_bounds (vector_loop renamed_produce_consume)),
            \<lparr>logger = None, name_count = 1\<rparr>)"
proof -
  let ?g1 = "\<lparr>logger = None, name_count = 1\<rparr>"
  note t = non_serial_loop_not_slid [where ft = Vectorized and orc = solving_oracles
      and f = stage_A and n = "''x''" and mn = "Variable ''x.loop_min''"
      and ex = "Variable ''x.loop_extent''" and dev = DeviceAPI_None
      and body = renamed_produce_consume and g = ?g1]
  have a: "slide_over_loop solving_oracles stage_A ''x'' (Variable ''x.loop_min'') Vectorized
     renamed_produce_consume ?g1 = Inr (renamed_produce_consume, ''x'', None, ?g1)"
    using t by simp
  have body: "sliding_window_on_function solving_oracles stage_A renamed_produce_consume ?g1
     = Inr (renamed_produce_consume, ?g1)"
    by (simp add: renamed_produce_consume_def)
  have b: "sliding_window_on_function solving_oracles stage_A (vector_loop renamed_produce_consume) ?g1
     = Inr (vector_loop renamed_produce_consume, ?g1)"
    using t [THEN conjunct2, THEN conjunct1] unfolding vector_loop_def body by simp
  have slide: "sliding_window_on_function_and_loop solving_oracles stage_A ''y''
      (Variable ''y.loop_min'') Map.empty (with_bounds (vector_loop produce_consume))
      \<lparr>logger = logger no_globals, name_count = name_count no_globals,
       replacements = Map.empty, new_loop_min = None\<rparr>
      = Inr (with_slid_bounds (vector_loop slid_produce_consume),
             slid_state\<lparr>replacements := Map.empty\<rparr>)"
    unfolding example_fresh by (rule example_nested_run)
  have changed: "new_loop_min (slid_state\<lparr>replacements := Map.empty\<rparr>)
      = Some (Sub (Variable ''y.loop_min'') (IntImm 2))"
    by (simp add: slid_state_def)
  have rest: "sliding_window_on_function solving_oracles stage_A
       (substitute_stmt
          [''y'' \<mapsto> Variable (''y'' @ ''.n''),
           ''y'' @ ''.loop_extent'' \<mapsto> Variable (''y'' @ ''.n.loop_extent''),
           ''y'' @ ''.loop_min'' \<mapsto> Variable (''y'' @ ''.n.loop_min'')]
          (with_slid_bounds (vector_loop slid_produce_consume)))
       \<lparr>logger = logger (slid_state\<lparr>replacements := Map.empty\<rparr>),
        name_count = name_count (slid_state\<lparr>replacements := Map.empty\<rparr>)\<rparr>
     = Inr (with_renamed_bounds (vector_loop renamed_produce_consume), ?g1)"
    using example_renaming(2) b
    by (simp add: renames_def slid_state_def with_renamed_bounds_def)
  have max_name: "loop_max_name_of ''y.loop_min'' = ''y.loop_max''"
    by (simp add: loop_max_name_of_def)
  have c: "sliding_window_on_function solving_oracles stage_A
       (serial_loop (with_bounds (vector_loop produce_consume))) no_globals
     = Inr (slid_serial_loop (with_renamed_bounds (vector_loop renamed_produce_consume)), ?g1)"
    using driver_slid_loop [where ft = Serial and ex = "Variable ''y.loop_extent''"
      and dev = DeviceAPI_None, OF _ slide changed rest]
    by (simp add: serial_loop_def slid_serial_loop_def max_name)
  from a b c show ?thesis by blast
qed

section \<open>Scoped expansion and rebinding\<close>

text \<open>
  C9. The claim: where an expression holds a let that rebinds a name the scope also binds,
  expansion leaves the occurrences of the name in the body of the let to the inner
  binding. The code does not: \<open>ExpandExpr\<close> has no case for a let, so the default
  traversal reaches the body and the variable case replaces the name there by the
  scope's expression. With \<open>x\<close> bound to 5 in the scope, \<open>let x = 1 in x\<close> expands to
  \<open>let x = 1 in 5\<close>: its value changes from 1 to 5. The dependence check of the same
  file does stop at such a rebinding.
\<close>

theorem expand_expr_ignores_rebinding:
  "expand_expr (Let_expr ''x'' (IntImm 1) (Variable ''x'')) [''x'' \<mapsto> IntImm 5]
     = Let_expr ''x'' (IntImm 1) (IntImm 5)
   \<and> eval env (Let_expr ''x'' (IntImm 1) (Variable ''x'')) = Some 1
   \<and> eval env (expand_expr (Let_expr ''x'' (IntImm 1) (Variable ''x'')) [''x'' \<mapsto> IntImm 5]) = Some 5
   \<and> expr_depends_on_var (Let_expr ''x'' (IntImm 1) (Variable ''x'')) ''x'' = False"
  by simp

end
